theory Spec2Isabelle
  imports Complex_Main "HOL-Library.Sublist"
begin

section \<open>Python strings\<close>

text \<open>
  A Python \<open>str\<close> is a sequence of Unicode code points; a code point is a natural
  number here, so that \<open>length\<close> counts what Python's \<open>len\<close> counts. \<open>asc\<close> reads
  an ASCII literal as such a sequence.
\<close>

type_synonym ustr = "nat list"

definition asc :: "string \<Rightarrow> ustr" where
  "asc s = map of_char s"

text \<open>
  \<open>old in s\<close>: the substring test. The empty string occurs in every string.
\<close>

fun substr_in :: "ustr \<Rightarrow> ustr \<Rightarrow> bool" where
  "substr_in old [] = (old = [])"
| "substr_in old (c # s) = (prefix old (c # s) \<or> substr_in old s)"

text \<open>
  \<open>s.replace(old, new)\<close>: the occurrences of \<open>old\<close> are found from the left and do not
  overlap; the text put in for one occurrence is not scanned again. Every call of the
  source has a non-empty \<open>old\<close>; for an empty one the string is returned as it is here.
\<close>

function str_replace :: "ustr \<Rightarrow> ustr \<Rightarrow> ustr \<Rightarrow> ustr" where
  "str_replace old new [] = []"
| "str_replace old new (c # s) =
     (if old \<noteq> [] \<and> prefix old (c # s)
      then new @ str_replace old new (drop (length old) (c # s))
      else c # str_replace old new s)"
  by pat_completeness auto
termination
  by (relation "measure (\<lambda>(old, new, s). length s)") auto

text \<open>
  \<open>str.isspace\<close> of one code point, the characters \<open>s.strip()\<close> removes: the ASCII
  controls 9 to 13 and 28 to 31, the space, and the Unicode spaces and separators.
\<close>

definition is_space :: "nat \<Rightarrow> bool" where
  "is_space c =
     ((9 \<le> c \<and> c \<le> 13) \<or> (28 \<le> c \<and> c \<le> 32) \<or> c = 133 \<or> c = 160 \<or> c = 5760
      \<or> (8192 \<le> c \<and> c \<le> 8202) \<or> c = 8232 \<or> c = 8233 \<or> c = 8239 \<or> c = 8287
      \<or> c = 12288)"

definition strip :: "ustr \<Rightarrow> ustr" where
  "strip s = rev (dropWhile is_space (rev (dropWhile is_space s)))"

text \<open>
  A number as pandas holds it: a finite value, which is an integer or a finite float and
  is taken exactly, or one of the two infinite floats.
\<close>

datatype number = Finite rat | PosInf | NegInf

text \<open>
  Python's \<open>str.lower\<close>, \<open>str.upper\<close>, \<open>str\<close> of a number and pandas' conversion to
  numbers belong to the libraries, not to the repository. They are parameters of the
  model: \<open>lower_ext\<close> and \<open>upper_ext\<close> give the case mapping of a string that holds a code
  point outside the range written out below, and \<open>num_str\<close> is the text of a number.
  \<open>to_float64\<close> is what \<open>pd.to_numeric\<close> stores for a number it finds in the column: the
  number itself, the nearest float for an integer that no float holds exactly, and
  \<open>None\<close> where it stores NaN. \<open>parse_num\<close> is the number it reads from a text, finite or
  infinite, and \<open>None\<close> where numeric parsing fails.
\<close>

record pylib =
  lower_ext :: "ustr \<Rightarrow> ustr"
  upper_ext :: "ustr \<Rightarrow> ustr"
  num_str :: "number \<Rightarrow> ustr"
  to_float64 :: "number \<Rightarrow> number option"
  parse_num :: "ustr \<Rightarrow> number option"

text \<open>
  On Latin-1 text \<open>lower\<close> works character by character: A to Z and the accented
  capitals 192 to 222 (but the multiplication sign 215) move up by 32.
\<close>

definition lower_latin1 :: "nat \<Rightarrow> nat" where
  "lower_latin1 c =
     (if (65 \<le> c \<and> c \<le> 90) \<or> (192 \<le> c \<and> c \<le> 222 \<and> c \<noteq> 215) then c + 32 else c)"

definition py_lower :: "pylib \<Rightarrow> ustr \<Rightarrow> ustr" where
  "py_lower L s = (if list_all (\<lambda>c. c < 256) s then map lower_latin1 s else lower_ext L s)"

text \<open>On ASCII text \<open>upper\<close> moves a to z down by 32.\<close>

definition upper_ascii :: "nat \<Rightarrow> nat" where
  "upper_ascii c = (if 97 \<le> c \<and> c \<le> 122 then c - 32 else c)"

definition py_upper :: "pylib \<Rightarrow> ustr \<Rightarrow> ustr" where
  "py_upper L s = (if list_all (\<lambda>c. c < 128) s then map upper_ascii s else upper_ext L s)"

section \<open>Tables\<close>

text \<open>
  A cell of the sheet as \<open>read_excel\<close> delivers it: blank (NaN), a number, or text.
  A data frame is its column labels and its rows, each row holding one cell per label.
\<close>

datatype cell = Null | Num number | Text ustr

record frame =
  columns :: "ustr list"
  rows :: "cell list list"

text \<open>
  What the script shows to the user, and the ways it can end early: \<open>df[name]\<close> raises
  \<open>KeyError\<close> for an absent label; for a label that occurs more than once it is a frame
  and not a Series, and the Series operations the source applies to it are not defined on
  it (\<open>NotASeries\<close>); \<open>st.stop()\<close> ends the run after the messages shown (\<open>Stop\<close>);
  the sum of a column that still holds text is a \<open>TypeError\<close>.
\<close>

datatype ui = St_error "ustr list" | St_write ustr | St_write_list "ustr list"

datatype error = KeyError ustr | NotASeries ustr | Stop "ui list" | TypeError

fun pos :: "'a list \<Rightarrow> 'a \<Rightarrow> nat" where
  "pos [] x = 0"
| "pos (y # ys) x = (if x = y then 0 else Suc (pos ys x))"

definition get_col :: "ustr list \<Rightarrow> ustr \<Rightarrow> error + nat" where
  "get_col cols name =
     (if name \<notin> set cols then Inl (KeyError name)
      else if 1 < count_list cols name then Inl (NotASeries name)
      else Inr (pos cols name))"

text \<open>\<open>df[mask]\<close>: the rows where the mask holds, in their order.\<close>

definition keep_rows :: "(cell list \<Rightarrow> bool) \<Rightarrow> frame \<Rightarrow> frame" where
  "keep_rows p df = df\<lparr>rows := filter p (rows df)\<rparr>"

text \<open>
  \<open>astype(str)\<close> on a cell, and the \<open>.str\<close> accessor, which applies a string method to
  text and yields NaN on anything else.
\<close>

definition astype_str :: "pylib \<Rightarrow> cell \<Rightarrow> cell" where
  "astype_str L c =
     (case c of Null \<Rightarrow> Text (asc ''nan'') | Num q \<Rightarrow> Text (num_str L q) | Text s \<Rightarrow> Text s)"

definition str_acc :: "(ustr \<Rightarrow> ustr) \<Rightarrow> cell \<Rightarrow> cell" where
  "str_acc f c = (case c of Text s \<Rightarrow> Text (f s) | _ \<Rightarrow> Null)"

section \<open>Canonical field names\<close>

definition Unidad :: ustr where
  "Unidad = asc ''Unidad''"

definition Coordinacion :: ustr where
  "Coordinacion = asc ''Coordinaci'' @ [243] @ asc ''n''"

definition Direccion :: ustr where
  "Direccion = asc ''Direcci'' @ [243] @ asc ''n''"

definition Tipo_de_Puesto :: ustr where
  "Tipo_de_Puesto = asc ''Tipo de Puesto''"

definition Nivel_Salarial :: ustr where
  "Nivel_Salarial = asc ''Nivel Salarial''"

definition Tipo_de_Plaza :: ustr where
  "Tipo_de_Plaza = asc ''Tipo de Plaza''"

definition Justificacion :: ustr where
  "Justificacion = asc ''Justificaci'' @ [243] @ asc ''n''"

definition Plazas :: ustr where
  "Plazas = asc ''Plazas''"

definition Plazas_Ocupadas_Vacantes :: ustr where
  "Plazas_Ocupadas_Vacantes = asc ''PLAZAS OCUPADAS/VACANTES''"

section \<open>Header Normalizer\<close>

text \<open>
  \<open>normalize_columns\<close>, on one label after \<open>astype(str)\<close>: three single-character
  replacements, ONE replacement of two spaces by one, then \<open>strip\<close>.
\<close>

definition normalize_label :: "ustr \<Rightarrow> ustr" where
  "normalize_label s =
     strip (str_replace [32, 32] [32]
       (str_replace [9] [32] (str_replace [13] [32] (str_replace [10] [32] s))))"

definition normalize_columns :: "frame \<Rightarrow> frame" where
  "normalize_columns df = df\<lparr>columns := map normalize_label (columns df)\<rparr>"

section \<open>Alias Resolver\<close>

text \<open>
  The inner function \<open>norm\<close> of \<open>apply_aliases\<close>: strip, lower, the three
  single-character replacements, then the loop that replaces two spaces by one for as
  long as two spaces occur.
\<close>

lemma str_replace_double_space_shorter:
  "substr_in [32, 32] s \<Longrightarrow> length (str_replace [32, 32] [32] s) < length s"
proof (induction "[32::nat, 32]" "[32::nat]" s rule: str_replace.induct)
  case 1
  then show ?case by simp
next
  case (2 c s)
  show ?case
  proof (cases "prefix [32, 32] (c # s)")
    case True
    then obtain t where t: "c # s = [32, 32] @ t"
      by (auto simp: prefix_def)
    have "length (str_replace [32, 32] [32] t) \<le> length t"
      by (induction "[32::nat, 32]" "[32::nat]" t rule: str_replace.induct) auto
    with t True show ?thesis by auto
  next
    case False
    with 2 show ?thesis by auto
  qed
qed

function collapse_spaces :: "ustr \<Rightarrow> ustr" where
  "collapse_spaces s =
     (if substr_in [32, 32] s then collapse_spaces (str_replace [32, 32] [32] s) else s)"
  by pat_completeness auto
termination
  by (relation "measure length") (auto simp: str_replace_double_space_shorter)

declare collapse_spaces.simps [simp del]

definition norm :: "pylib \<Rightarrow> ustr \<Rightarrow> ustr" where
  "norm L s =
     collapse_spaces
       (str_replace [9] [32] (str_replace [13] [32] (str_replace [10] [32]
          (py_lower L (strip s)))))"

text \<open>
  \<open>col_norm_map = {norm(c): c for c in df.columns}\<close>: the dictionary is filled from
  left to right, a later label replacing an earlier one under the same key.
\<close>

definition col_norm_map :: "pylib \<Rightarrow> ustr list \<Rightarrow> (ustr \<rightharpoonup> ustr)" where
  "col_norm_map L cols = foldl (\<lambda>m c. m(norm L c \<mapsto> c)) Map.empty cols"

text \<open>The alias table, in the order of the dictionary literal.\<close>

definition aliases :: "(ustr \<times> ustr list) list" where
  "aliases =
     [(Unidad, [asc ''unidad'']),
      (Coordinacion, [asc ''coordinaci'' @ [243] @ asc ''n'', asc ''coordinacion'']),
      (Direccion, [asc ''direcci'' @ [243] @ asc ''n'', asc ''direccion'']),
      (Tipo_de_Puesto, [asc ''tipo de puesto'', asc ''tipo puesto'', asc ''tipo_puesto'']),
      (Nivel_Salarial, [asc ''nivel salarial'', asc ''nivel_salarial'']),
      (Tipo_de_Plaza, [asc ''tipo de plaza'', asc ''tipo plaza'', asc ''tipo_plaza'']),
      (Justificacion, [asc ''justificaci'' @ [243] @ asc ''n'', asc ''justificacion'']),
      (Plazas,
        [asc ''plazas'', asc ''no. plazas'', asc ''n'' @ [250] @ asc ''mero de plazas'',
         asc ''numero de plazas'', asc ''num plazas'']),
      (Plazas_Ocupadas_Vacantes,
        [asc ''plazas ocupadas/vacantes'', asc ''plazas ocupadas vacantes'',
         asc ''ocupadas/vacantes'', asc ''plazas ocupadas'', asc ''vacantes''])]"

text \<open>
  The inner loop over the variants of one canonical name: the first variant whose key is
  in the dictionary decides, and the loop breaks.
\<close>

fun find_original :: "pylib \<Rightarrow> (ustr \<rightharpoonup> ustr) \<Rightarrow> ustr list \<Rightarrow> ustr option" where
  "find_original L m [] = None"
| "find_original L m (opt # opts) =
     (case m (norm L opt) of Some c \<Rightarrow> Some c | None \<Rightarrow> find_original L m opts)"

text \<open>
  One round of the outer loop: \<open>if found_original and found_original in df.columns\<close>,
  where an empty string counts as false.
\<close>

definition add_rename ::
  "pylib \<Rightarrow> (ustr \<rightharpoonup> ustr) \<Rightarrow> ustr list \<Rightarrow> (ustr \<rightharpoonup> ustr) \<Rightarrow> ustr \<times> ustr list \<Rightarrow> (ustr \<rightharpoonup> ustr)"
  where
  "add_rename L m cols rename_map entry =
     (case find_original L m (snd entry) of
        None \<Rightarrow> rename_map
      | Some found_original \<Rightarrow>
          if found_original \<noteq> [] \<and> found_original \<in> set cols
          then rename_map(found_original \<mapsto> fst entry)
          else rename_map)"

definition build_rename_map ::
  "pylib \<Rightarrow> ustr list \<Rightarrow> (ustr \<times> ustr list) list \<Rightarrow> (ustr \<rightharpoonup> ustr)" where
  "build_rename_map L cols table =
     foldl (add_rename L (col_norm_map L cols) cols) Map.empty table"

text \<open>\<open>df.rename(columns=rename_map)\<close>: every label that is a key gets its new name.\<close>

definition rename_columns :: "(ustr \<rightharpoonup> ustr) \<Rightarrow> ustr list \<Rightarrow> ustr list" where
  "rename_columns rename_map cols =
     map (\<lambda>c. case rename_map c of None \<Rightarrow> c | Some n \<Rightarrow> n) cols"

definition apply_aliases :: "pylib \<Rightarrow> frame \<Rightarrow> frame" where
  "apply_aliases L df =
     df\<lparr>columns := rename_columns (build_rename_map L (columns df) aliases) (columns df)\<rparr>"

text \<open>
  The variants of the alias table, and the search keys the resolver looks up: the
  \<open>norm\<close> of every variant.
\<close>

definition alias_strings :: "ustr list" where
  "alias_strings = concat (map snd aliases)"

definition alias_keys :: "pylib \<Rightarrow> ustr set" where
  "alias_keys L = set (map (norm L) alias_strings)"

section \<open>Schema Validator\<close>

definition required :: "ustr list" where
  "required =
     [Unidad, Coordinacion, Direccion, Tipo_de_Puesto, Nivel_Salarial, Tipo_de_Plaza,
      Justificacion, Plazas]"

text \<open>
  \<open>ensure_required\<close> returns nothing when no field is missing; otherwise it shows the
  missing fields, a caption and the labels of the table, and stops the script.
\<close>

definition ensure_required :: "frame \<Rightarrow> error + unit" where
  "ensure_required df =
     (let missing = filter (\<lambda>c. c \<notin> set (columns df)) required in
      if missing \<noteq> []
      then Inl (Stop [St_error missing,
                      St_write (asc ''Columnas detectadas en tu archivo:''),
                      St_write_list (columns df)])
      else Inr ())"

section \<open>Row Cleaner\<close>

text \<open>
  \<open>pd.to_numeric(..., errors="coerce")\<close> on one cell: a blank stays blank, a number
  becomes the value the library stores for it, text becomes the number it parses to or a
  blank. No cell makes it raise.
\<close>

definition to_numeric :: "pylib \<Rightarrow> cell \<Rightarrow> cell" where
  "to_numeric L c =
     (case c of
        Null \<Rightarrow> Null
      | Num q \<Rightarrow> (case to_float64 L q of None \<Rightarrow> Null | Some x \<Rightarrow> Num x)
      | Text s \<Rightarrow> (case parse_num L s of None \<Rightarrow> Null | Some x \<Rightarrow> Num x))"

definition coerce_plazas_numeric :: "pylib \<Rightarrow> frame \<Rightarrow> error + frame" where
  "coerce_plazas_numeric L df =
     (case get_col (columns df) Plazas of
        Inl e \<Rightarrow> Inl e
      | Inr i \<Rightarrow> Inr (df\<lparr>rows := map (\<lambda>r. r[i := to_numeric L (r ! i)]) (rows df)\<rparr>))"

text \<open>\<open>safe_text_series\<close>: \<open>astype(str)\<close>, then \<open>.str.strip()\<close>.\<close>

definition safe_text_series :: "pylib \<Rightarrow> cell \<Rightarrow> cell" where
  "safe_text_series L c = str_acc strip (astype_str L c)"

definition mask_total :: "pylib \<Rightarrow> cell \<Rightarrow> bool" where
  "mask_total L c =
     (str_acc (py_upper L) (safe_text_series L c)
        \<in> set [Text (asc ''TOTAL''), Text (asc ''TOTALES'')])"

text \<open>The loop of \<open>drop_total_like_rows\<close> over the grouping columns.\<close>

fun drop_total_loop :: "pylib \<Rightarrow> ustr list \<Rightarrow> frame \<Rightarrow> error + frame" where
  "drop_total_loop L [] df = Inr df"
| "drop_total_loop L (col # cs) df =
     (if col \<in> set (columns df)
      then (case get_col (columns df) col of
              Inl e \<Rightarrow> Inl e
            | Inr i \<Rightarrow> drop_total_loop L cs (keep_rows (\<lambda>r. \<not> mask_total L (r ! i)) df))
      else drop_total_loop L cs df)"

definition drop_total_like_rows :: "pylib \<Rightarrow> frame \<Rightarrow> error + frame" where
  "drop_total_like_rows L df =
     (case get_col (columns df) Tipo_de_Plaza of
        Inl e \<Rightarrow> Inl e
      | Inr i \<Rightarrow>
          drop_total_loop L [Direccion, Tipo_de_Plaza, Unidad, Coordinacion]
            (keep_rows (\<lambda>r. r ! i \<noteq> Null) df))"

section \<open>The script up to the clean table\<close>

definition pipeline :: "pylib \<Rightarrow> frame \<Rightarrow> error + frame" where
  "pipeline L df0 =
     (let df = apply_aliases L (normalize_columns df0) in
      case ensure_required df of
        Inl e \<Rightarrow> Inl e
      | Inr u \<Rightarrow>
          (case coerce_plazas_numeric L df of
             Inl e \<Rightarrow> Inl e
           | Inr df' \<Rightarrow> drop_total_like_rows L df'))"

section \<open>Filter Engine\<close>

text \<open>
  One restriction of the filter block: \<open>if sel: df_f = df_f[df_f[col].isin(sel)]\<close>.
  An empty selection is false and the column is not even read.
\<close>

definition restrict :: "ustr \<Rightarrow> cell list \<Rightarrow> frame \<Rightarrow> error + frame" where
  "restrict col sel df =
     (if sel = [] then Inr df
      else (case get_col (columns df) col of
              Inl e \<Rightarrow> Inl e
            | Inr i \<Rightarrow> Inr (keep_rows (\<lambda>r. r ! i \<in> set sel) df)))"

definition filter_block :: "frame \<Rightarrow> cell list \<Rightarrow> cell list \<Rightarrow> cell list \<Rightarrow> error + frame" where
  "filter_block df unidad_sel coord_sel dir_sel =
     (case restrict Unidad unidad_sel df of
        Inl e \<Rightarrow> Inl e
      | Inr df1 \<Rightarrow>
          (case restrict Coordinacion coord_sel df1 of
             Inl e \<Rightarrow> Inl e
           | Inr df2 \<Rightarrow> restrict Direccion dir_sel df2))"

text \<open>The script from the upload to the filtered view.\<close>

definition filtered_view ::
  "pylib \<Rightarrow> frame \<Rightarrow> cell list \<Rightarrow> cell list \<Rightarrow> cell list \<Rightarrow> error + frame" where
  "filtered_view L df0 unidad_sel coord_sel dir_sel =
     (case pipeline L df0 of
        Inl e \<Rightarrow> Inl e
      | Inr df \<Rightarrow> filter_block df unidad_sel coord_sel dir_sel)"

section \<open>Position-type chart\<close>

text \<open>The fixed hierarchy of position types.\<close>

definition ORDEN_PUESTO :: "ustr list" where
  "ORDEN_PUESTO =
     [asc ''Direcci'' @ [243] @ asc ''n General'', asc ''Titular de Unidad'',
      asc ''Coordinador General'', asc ''Director de '' @ [225] @ asc ''rea'',
      asc ''Gerente'', asc ''Subgerente'', asc ''Enlace'', asc ''Operativo'']"

text \<open>\<open>fillna(v)\<close> on one cell.\<close>

definition fillna :: "cell \<Rightarrow> cell \<Rightarrow> cell" where
  "fillna v c = (case c of Null \<Rightarrow> v | _ \<Rightarrow> c)"

text \<open>
  \<open>value_counts()\<close> of a column: its distinct values that are not blank, each with the
  number of its occurrences, in descending order of that number. The sort is pandas'
  \<open>sort_values\<close>, a parameter here: \<open>sorts_descending\<close> is what it is known to do, and the
  order it gives to values of equal count is left open. \<open>uniques\<close> lists the distinct values in
  the order of their first occurrence.
\<close>

definition uniques :: "'a list \<Rightarrow> 'a list" where
  "uniques xs = rev (remdups (rev xs))"

type_synonym counts = "(cell \<times> nat) list"

definition sorts_descending :: "(counts \<Rightarrow> counts) \<Rightarrow> bool" where
  "sorts_descending sort_values =
     (\<forall>es. set (sort_values es) = set es \<and> length (sort_values es) = length es
           \<and> sorted_wrt (\<lambda>a b. snd b \<le> snd a) (sort_values es))"

definition value_counts :: "(counts \<Rightarrow> counts) \<Rightarrow> cell list \<Rightarrow> counts" where
  "value_counts sort_values xs =
     sort_values (map (\<lambda>v. (v, count_list xs v)) (uniques (filter (\<lambda>c. c \<noteq> Null) xs)))"

text \<open>
  \<open>.reindex(labels).dropna()\<close> on such counts: the labels that have a count, in the order
  of \<open>labels\<close>; and \<open>.drop(index=labels, errors="ignore")\<close>: the counts of all other values,
  in their order.
\<close>

definition reindex_dropna :: "ustr list \<Rightarrow> counts \<Rightarrow> counts" where
  "reindex_dropna labels vc =
     List.map_filter (\<lambda>l. map_option (\<lambda>n. (Text l, n)) (map_of vc (Text l))) labels"

definition drop_index :: "ustr list \<Rightarrow> counts \<Rightarrow> counts" where
  "drop_index labels vc = filter (\<lambda>e. fst e \<notin> set (map Text labels)) vc"

text \<open>
  The chart's table \<open>puesto_count\<close>: the hierarchy part, and the other values appended when
  there are any. \<open>puesto_series\<close> is the column \<open>Tipo de Puesto\<close> of the filtered view with
  its blanks filled.
\<close>

definition puesto_order :: "(counts \<Rightarrow> counts) \<Rightarrow> cell list \<Rightarrow> counts" where
  "puesto_order sort_values puesto_series =
     (let puesto_count = reindex_dropna ORDEN_PUESTO (value_counts sort_values puesto_series);
          otros = drop_index ORDEN_PUESTO (value_counts sort_values puesto_series)
      in if otros \<noteq> [] then puesto_count @ otros else puesto_count)"

definition puesto_series :: "frame \<Rightarrow> error + cell list" where
  "puesto_series df_f =
     (case get_col (columns df_f) Tipo_de_Puesto of
        Inl e \<Rightarrow> Inl e
      | Inr i \<Rightarrow> Inr (map (\<lambda>r. fillna (Text (asc ''Sin Tipo de Puesto'')) (r ! i)) (rows df_f)))"

definition puesto_count :: "(counts \<Rightarrow> counts) \<Rightarrow> frame \<Rightarrow> error + counts" where
  "puesto_count sort_values df_f =
     (case puesto_series df_f of
        Inl e \<Rightarrow> Inl e
      | Inr series \<Rightarrow> Inr (puesto_order sort_values series))"

section \<open>The specification's predicates\<close>

text \<open>
  The Row Cleaner in the specification's words: a value is total-like when its text,
  trimmed and uppercased, is exactly TOTAL or TOTALES; a row is kept when its position
  type is not null and none of the four grouping columns holds a total-like value.
\<close>

definition spec_total_value :: "pylib \<Rightarrow> cell \<Rightarrow> bool" where
  "spec_total_value L c =
     (let text = (case c of Null \<Rightarrow> asc ''nan'' | Num q \<Rightarrow> num_str L q | Text s \<Rightarrow> s);
          v = py_upper L (strip text)
      in v = asc ''TOTAL'' \<or> v = asc ''TOTALES'')"

definition spec_row_kept :: "pylib \<Rightarrow> ustr list \<Rightarrow> cell list \<Rightarrow> bool" where
  "spec_row_kept L cols r =
     (r ! pos cols Tipo_de_Plaza \<noteq> Null
      \<and> \<not> spec_total_value L (r ! pos cols Direccion)
      \<and> \<not> spec_total_value L (r ! pos cols Tipo_de_Plaza)
      \<and> \<not> spec_total_value L (r ! pos cols Unidad)
      \<and> \<not> spec_total_value L (r ! pos cols Coordinacion))"

text \<open>
  The Filter Engine in the specification's words: the membership predicate of one
  column, where an empty selection imposes no restriction.
\<close>

definition spec_selected :: "nat \<Rightarrow> cell list \<Rightarrow> cell list \<Rightarrow> bool" where
  "spec_selected i sel r = (sel = [] \<or> r ! i \<in> set sel)"

section \<open>Example data\<close>

text \<open>
  A library instance for evaluation: case mapping outside the written-out ranges is the
  identity, every number is stored as it is, and only strings of decimal digits parse as
  numbers.
\<close>

definition digits_value :: "ustr \<Rightarrow> nat" where
  "digits_value s = foldl (\<lambda>a d. 10 * a + (d - 48)) 0 s"

definition example_lib :: pylib where
  "example_lib =
     \<lparr>lower_ext = (\<lambda>s. s), upper_ext = (\<lambda>s. s), num_str = (\<lambda>q. asc ''0''),
      to_float64 = Some,
      parse_num = (\<lambda>s. if s \<noteq> [] \<and> list_all (\<lambda>d. 48 \<le> d \<and> d \<le> 57) s
                        then Some (Finite (of_nat (digits_value s))) else None)\<rparr>"

definition row1 :: "cell list" where
  "row1 = [Text (asc ''U1''), Text (asc ''C1''), Text (asc ''D1''), Text (asc ''Gerente''),
           Text (asc ''N1''), Text (asc ''Base''), Text (asc ''ok''), Text (asc ''3'')]"

definition row2 :: "cell list" where
  "row2 = [Text (asc ''U2''), Text (asc ''C2''), Text (asc '' total ''), Text (asc ''Enlace''),
           Text (asc ''N2''), Text (asc ''Base''), Null, Text (asc ''7'')]"

definition row3 :: "cell list" where
  "row3 = [Text (asc ''U1''), Text (asc ''C1''), Text (asc ''D2''), Text (asc ''Enlace''),
           Text (asc ''N1''), Null, Text (asc ''ok''), Num (Finite 5)]"

definition row4 :: "cell list" where
  "row4 = [Text (asc ''U2''), Text (asc ''C1''), Text (asc ''D1''), Text (asc ''Enlace''),
           Text (asc ''N1''), Text (asc ''Eventual''), Text (asc ''ok''), Text (asc ''abc'')]"

definition example_table :: frame where
  "example_table =
     \<lparr>columns = [Unidad, Coordinacion, Direccion, Tipo_de_Puesto, Nivel_Salarial,
                 Tipo_de_Plaza, Justificacion, Plazas],
      rows = [row1, row2, row3, row4]\<rparr>"

definition example_upload :: frame where
  "example_upload =
     \<lparr>columns = [asc ''Unidad '', asc ''Coordinacion'', asc ''Direcci'' @ [243] @ asc ''n'' @ [10],
                 asc ''Tipo  de Puesto'', asc ''nivel_salarial'', asc ''TIPO DE PLAZA'',
                 asc ''Justificaci'' @ [243] @ asc ''n'', asc ''No. Plazas''],
      rows = [row1, row2, row3, row4]\<rparr>"

definition example_upload_missing :: frame where
  "example_upload_missing =
     \<lparr>columns = [asc ''Unidad '', asc ''Coordinacion'', asc ''Direcci'' @ [243] @ asc ''n'' @ [10],
                 asc ''Tipo  de Puesto'', asc ''nivel_salarial'', asc ''TIPO DE PLAZA'',
                 asc ''No. Plazas''],
      rows = [butlast row1]\<rparr>"

text \<open>
  An upload in which two headers normalize to the same label, \<open>Tipo de Plaza\<close>, and the
  clean table the script computes from \<open>example_upload\<close>.
\<close>

definition example_upload_twice :: frame where
  "example_upload_twice =
     \<lparr>columns = [asc ''Unidad'', asc ''Coordinaci'' @ [243] @ asc ''n'',
                 asc ''Direcci'' @ [243] @ asc ''n'', asc ''Tipo de Puesto'',
                 asc ''Nivel Salarial'', asc ''Tipo de Plaza'', asc ''Tipo de Plaza '',
                 asc ''Justificaci'' @ [243] @ asc ''n'', asc ''Plazas''],
      rows = [[Text (asc ''U1''), Text (asc ''C1''), Text (asc ''D1''), Text (asc ''Gerente''),
               Text (asc ''N1''), Text (asc ''Base''), Text (asc ''Base''), Text (asc ''ok''),
               Num (Finite 3)]]\<rparr>"

definition example_clean :: frame where
  "example_clean =
     \<lparr>columns = [Unidad, Coordinacion, Direccion, Tipo_de_Puesto, Nivel_Salarial,
                 Tipo_de_Plaza, Justificacion, Plazas],
      rows = [row1[7 := Num (Finite 3)], row4[7 := Null]]\<rparr>"

text \<open>
  A stable descending sort for \<open>value_counts\<close>, and a column of position types for the
  chart.
\<close>

definition stable_descending :: "counts \<Rightarrow> counts" where
  "stable_descending es = sort_key (\<lambda>e. - int (snd e)) es"

definition example_puestos :: "cell list" where
  "example_puestos =
     [Text (asc ''Enlace''), Text (asc ''UnknownRole''), Text (asc ''Gerente''),
      Text (asc ''Enlace''), Text (asc ''Enlace''), Text (asc ''Gerente''),
      Text (asc ''UnknownRole''), Text (asc ''Enlace''), Text (asc ''Gerente''),
      Text (asc ''Enlace'')]"

text \<open>Header rows for the Alias Resolver.\<close>

definition example_single :: frame where
  "example_single =
     \<lparr>columns = [asc ''Clave'', asc ''  NUM   Plazas '', asc ''Notas''], rows = []\<rparr>"

definition example_duplicates :: frame where
  "example_duplicates =
     \<lparr>columns = [asc ''tipo puesto'', asc ''Tipo Puesto'', asc ''Otra''], rows = []\<rparr>"

definition example_priority :: frame where
  "example_priority =
     \<lparr>columns = [asc ''tipo puesto'', asc ''Tipo Puesto'', asc ''tipo de puesto''], rows = []\<rparr>"

section \<open>Lemmas on tables\<close>

lemma pos_nth: "x \<in> set cols \<Longrightarrow> pos cols x < length cols \<and> cols ! pos cols x = x"
  by (induction cols) auto

lemma count_list_one_mem: "count_list cols x = 1 \<Longrightarrow> x \<in> set cols"
  using count_list_0_iff [of cols x] by auto

lemma get_col_unique: "count_list cols x = 1 \<Longrightarrow> get_col cols x = Inr (pos cols x)"
  by (simp add: get_col_def count_list_one_mem)

lemma get_col_Inr:
  "get_col cols x = Inr i \<Longrightarrow> count_list cols x = 1 \<and> i = pos cols x"
  using count_list_0_iff [of cols x]
  by (auto simp: get_col_def split: if_splits)

lemma ensure_required_ok_iff:
  "ensure_required df = Inr () \<longleftrightarrow> set required \<subseteq> set (columns df)"
  by (auto simp: ensure_required_def Let_def filter_empty_conv)

lemma required_members:
  "set required \<subseteq> S \<Longrightarrow>
     Unidad \<in> S \<and> Coordinacion \<in> S \<and> Direccion \<in> S \<and> Tipo_de_Puesto \<in> S \<and> Nivel_Salarial \<in> S
     \<and> Tipo_de_Plaza \<in> S \<and> Justificacion \<in> S \<and> Plazas \<in> S"
  by (simp add: required_def)

lemma keep_rows_columns [simp]: "columns (keep_rows p df) = columns df"
  by (simp add: keep_rows_def)

lemma keep_rows_rows [simp]: "rows (keep_rows p df) = filter p (rows df)"
  by (simp add: keep_rows_def)

lemma keep_rows_keep_rows: "keep_rows q (keep_rows p df) = keep_rows (\<lambda>r. p r \<and> q r) df"
  by (simp add: keep_rows_def)

lemma mask_total_total_like: "mask_total L c = spec_total_value L c"
  by (cases c) (auto simp: mask_total_def spec_total_value_def safe_text_series_def str_acc_def astype_str_def)

lemma drop_total_loop_Inr:
  "drop_total_loop L cs df = Inr d \<Longrightarrow>
     columns d = columns df \<and> subseq (rows d) (rows df)
     \<and> (\<forall>c \<in> set cs. c \<in> set (columns df) \<longrightarrow> count_list (columns df) c = 1)"
proof (induction cs arbitrary: df)
  case Nil
  then show ?case by simp
next
  case (Cons col cs)
  show ?case
  proof (cases "col \<in> set (columns df)")
    case False
    with Cons.prems have "drop_total_loop L cs df = Inr d" by simp
    from Cons.IH [OF this] False show ?thesis by auto
  next
    case True
    show ?thesis
    proof (cases "get_col (columns df) col")
      case (Inl e)
      with True Cons.prems show ?thesis by simp
    next
      case (Inr i)
      let ?df = "keep_rows (\<lambda>r. \<not> mask_total L (r ! i)) df"
      from Inr True Cons.prems have "drop_total_loop L cs ?df = Inr d" by simp
      from Cons.IH [OF this]
      have a: "columns d = columns df" and b: "subseq (rows d) (filter (\<lambda>r. \<not> mask_total L (r ! i)) (rows df))"
        and c: "\<forall>c \<in> set cs. c \<in> set (columns df) \<longrightarrow> count_list (columns df) c = 1"
        by simp_all
      have "subseq (filter (\<lambda>r. \<not> mask_total L (r ! i)) (rows df)) (rows df)" by simp
      with b have b': "subseq (rows d) (rows df)" by (rule subseq_order.trans)
      from get_col_Inr [OF Inr] have "count_list (columns df) col = 1" by simp
      with a b' c show ?thesis by simp
    qed
  qed
qed

lemma drop_total_like_rows_Inr:
  assumes "drop_total_like_rows L df = Inr d"
  shows "columns d = columns df \<and> subseq (rows d) (rows df)
     \<and> (\<forall>c \<in> set [Direccion, Tipo_de_Plaza, Unidad, Coordinacion].
           c \<in> set (columns df) \<longrightarrow> count_list (columns df) c = 1)"
proof (cases "get_col (columns df) Tipo_de_Plaza")
  case (Inl e)
  with assms show ?thesis by (simp add: drop_total_like_rows_def)
next
  case (Inr i)
  let ?df = "keep_rows (\<lambda>r. r ! i \<noteq> Null) df"
  from Inr assms
  have "drop_total_loop L [Direccion, Tipo_de_Plaza, Unidad, Coordinacion] ?df = Inr d"
    by (simp add: drop_total_like_rows_def)
  from drop_total_loop_Inr [OF this]
  have a: "columns d = columns df" and b: "subseq (rows d) (filter (\<lambda>r. r ! i \<noteq> Null) (rows df))"
    and c: "\<forall>c \<in> set [Direccion, Tipo_de_Plaza, Unidad, Coordinacion].
              c \<in> set (columns df) \<longrightarrow> count_list (columns df) c = 1"
    by simp_all
  have "subseq (filter (\<lambda>r. r ! i \<noteq> Null) (rows df)) (rows df)" by simp
  with b have "subseq (rows d) (rows df)" by (rule subseq_order.trans)
  with a c show ?thesis by simp
qed

lemma coerce_plazas_numeric_columns:
  "coerce_plazas_numeric L df = Inr d \<Longrightarrow> columns d = columns df"
  by (auto simp: coerce_plazas_numeric_def split: sum.splits)

lemma restrict_Inr:
  "restrict col sel df = Inr d \<Longrightarrow> columns d = columns df \<and> subseq (rows d) (rows df)"
  by (auto simp: restrict_def split: if_splits sum.splits)

lemma filter_block_Inr:
  assumes "filter_block df us cs ds = Inr d"
  shows "columns d = columns df \<and> subseq (rows d) (rows df)"
proof -
  from assms obtain d1 d2 where 1: "restrict Unidad us df = Inr d1"
    and 2: "restrict Coordinacion cs d1 = Inr d2" and 3: "restrict Direccion ds d2 = Inr d"
    by (auto simp: filter_block_def split: sum.splits)
  from restrict_Inr [OF 1] restrict_Inr [OF 2] restrict_Inr [OF 3]
  have "columns d = columns df" and "subseq (rows d) (rows d2)" and "subseq (rows d2) (rows d1)"
    and "subseq (rows d1) (rows df)"
    by simp_all
  then show ?thesis
    using subseq_order.trans by blast
qed

text \<open>The clean table has each of the three filter columns exactly once.\<close>

lemma pipeline_filter_columns:
  assumes "pipeline L df0 = Inr df"
  shows "count_list (columns df) Unidad = 1 \<and> count_list (columns df) Coordinacion = 1
     \<and> count_list (columns df) Direccion = 1"
proof -
  let ?t = "apply_aliases L (normalize_columns df0)"
  from assms obtain t' where v: "ensure_required ?t = Inr ()"
    and c: "coerce_plazas_numeric L ?t = Inr t'" and d: "drop_total_like_rows L t' = Inr df"
    by (auto simp: pipeline_def Let_def split: sum.splits)
  from v have "set required \<subseteq> set (columns ?t)"
    by (simp add: ensure_required_ok_iff)
  note mem = required_members [OF this]
  from coerce_plazas_numeric_columns [OF c] have e: "columns t' = columns ?t" .
  from drop_total_like_rows_Inr [OF d] e mem show ?thesis
    by simp
qed

lemma restrict_unique:
  "count_list (columns df) col = 1 \<Longrightarrow>
   restrict col sel df = Inr (keep_rows (spec_selected (pos (columns df) col) sel) df)"
proof -
  have "spec_selected (pos (columns df) col) sel = (\<lambda>r. sel = [] \<or> r ! pos (columns df) col \<in> set sel)"
    by (rule ext) (simp add: spec_selected_def)
  then show "count_list (columns df) col = 1 \<Longrightarrow> ?thesis"
    by (simp add: restrict_def get_col_unique keep_rows_def)
qed

lemma filter_block_unique:
  assumes "count_list (columns df) Unidad = 1" and "count_list (columns df) Coordinacion = 1"
    and "count_list (columns df) Direccion = 1"
  shows "filter_block df us cs ds =
      Inr (keep_rows (\<lambda>r. spec_selected (pos (columns df) Unidad) us r
                        \<and> spec_selected (pos (columns df) Coordinacion) cs r
                        \<and> spec_selected (pos (columns df) Direccion) ds r) df)"
  using assms by (simp add: filter_block_def restrict_unique keep_rows_keep_rows)

lemma drop_total_like_rows_unique:
  assumes "count_list (columns df) Direccion = 1" and "count_list (columns df) Tipo_de_Plaza = 1"
    and "count_list (columns df) Unidad = 1" and "count_list (columns df) Coordinacion = 1"
  shows "drop_total_like_rows L df = Inr (keep_rows (spec_row_kept L (columns df)) df)"
proof -
  note mem = assms [THEN count_list_one_mem]
  note g = assms [THEN get_col_unique]
  have k: "spec_row_kept L (columns df) = (\<lambda>r. r ! pos (columns df) Tipo_de_Plaza \<noteq> Null
      \<and> \<not> spec_total_value L (r ! pos (columns df) Direccion)
      \<and> \<not> spec_total_value L (r ! pos (columns df) Tipo_de_Plaza)
      \<and> \<not> spec_total_value L (r ! pos (columns df) Unidad)
      \<and> \<not> spec_total_value L (r ! pos (columns df) Coordinacion))"
    by (rule ext) (simp add: spec_row_kept_def)
  show ?thesis
    using mem
    by (simp add: drop_total_like_rows_def g keep_rows_keep_rows mask_total_total_like k)
qed

lemma filter_block_empty: "filter_block df [] [] [] = Inr df"
  by (simp add: filter_block_def restrict_def)

lemma ensure_required_cases:
  "ensure_required df =
     (if set required - set (columns df) = {} then Inr ()
      else Inl (Stop [St_error (filter (\<lambda>c. c \<notin> set (columns df)) required),
                      St_write (asc ''Columnas detectadas en tu archivo:''),
                      St_write_list (columns df)]))"
  by (auto simp: ensure_required_def Let_def filter_empty_conv)

lemma missing_set:
  "set (filter (\<lambda>c. c \<notin> set cols) required) = set required - set cols"
  by auto

section \<open>Evaluation of the examples\<close>

lemmas str_eval = norm_def py_lower_def lower_latin1_def strip_def is_space_def asc_def
  collapse_spaces.simps py_upper_def upper_ascii_def normalize_label_def

lemmas field_defs = Unidad_def Coordinacion_def Direccion_def Tipo_de_Puesto_def
  Nivel_Salarial_def Tipo_de_Plaza_def Justificacion_def Plazas_def Plazas_Ocupadas_Vacantes_def

lemmas alias_eval = apply_aliases_def normalize_columns_def build_rename_map_def
  col_norm_map_def aliases_def add_rename_def rename_columns_def

lemmas row_defs = row1_def row2_def row3_def row4_def

lemmas cell_eval = spec_row_kept_def spec_total_value_def spec_selected_def py_upper_def upper_ascii_def
  strip_def is_space_def

lemma example_upload_columns:
  "columns (apply_aliases example_lib (normalize_columns example_upload)) =
     [Unidad, Coordinacion, Direccion, Tipo_de_Puesto, Nivel_Salarial, Tipo_de_Plaza,
      Justificacion, Plazas]"
  by (simp add: str_eval alias_eval field_defs example_upload_def example_lib_def)

lemma example_upload_missing_columns:
  "columns (apply_aliases example_lib (normalize_columns example_upload_missing)) =
     [Unidad, Coordinacion, Direccion, Tipo_de_Puesto, Nivel_Salarial, Tipo_de_Plaza, Plazas]"
  by (simp add: str_eval alias_eval field_defs example_upload_missing_def example_lib_def)

lemma example_table_validated: "ensure_required example_table = Inr ()"
  by (simp add: ensure_required_def required_def example_table_def field_defs asc_def)

lemma example_table_pos:
  "pos (columns example_table) Unidad = 0"
  "pos (columns example_table) Coordinacion = 1"
  "pos (columns example_table) Direccion = 2"
  "pos (columns example_table) Tipo_de_Plaza = 5"
  by (simp_all add: example_table_def field_defs asc_def)

lemma example_table_rows: "rows example_table = [row1, row2, row3, row4]"
  by (simp add: example_table_def)

lemma example_table_unique:
  "count_list (columns example_table) Direccion = 1"
  "count_list (columns example_table) Tipo_de_Plaza = 1"
  "count_list (columns example_table) Unidad = 1"
  "count_list (columns example_table) Coordinacion = 1"
  by (simp_all add: example_table_def field_defs asc_def)

lemma example_table_kept:
  "filter (spec_row_kept example_lib (columns example_table)) (rows example_table) = [row1, row4]"
  by (simp add: example_table_rows cell_eval example_table_pos row_defs example_lib_def asc_def)

lemma example_table_cleaned:
  "drop_total_like_rows example_lib example_table = Inr (example_table\<lparr>rows := [row1, row4]\<rparr>)"
  using drop_total_like_rows_unique [OF example_table_unique, of example_lib]
  by (simp add: keep_rows_def example_table_kept)

lemma example_upload_twice_columns:
  "columns (apply_aliases example_lib (normalize_columns example_upload_twice)) =
     [Unidad, Coordinacion, Direccion, Tipo_de_Puesto, Nivel_Salarial, Tipo_de_Plaza,
      Tipo_de_Plaza, Justificacion, Plazas]"
  by (simp add: str_eval alias_eval field_defs example_upload_twice_def example_lib_def)

lemma example_upload_resolved:
  "apply_aliases example_lib (normalize_columns example_upload) = example_table"
proof (rule frame.equality)
  show "columns (apply_aliases example_lib (normalize_columns example_upload)) = columns example_table"
    by (simp add: example_upload_columns example_table_def)
  show "rows (apply_aliases example_lib (normalize_columns example_upload)) = rows example_table"
    by (simp add: apply_aliases_def normalize_columns_def example_upload_def example_table_def)
qed simp

lemma example_table_coerced:
  "coerce_plazas_numeric example_lib example_table =
     Inr (example_table\<lparr>rows := [row1[7 := Num (Finite 3)], row2[7 := Num (Finite 7)], row3, row4[7 := Null]]\<rparr>)"
proof -
  have g: "get_col (columns example_table) Plazas = Inr 7"
    by (simp add: get_col_def example_table_def field_defs asc_def)
  have r: "map (\<lambda>r. r[7 := to_numeric example_lib (r ! 7)]) (rows example_table) =
      [row1[7 := Num (Finite 3)], row2[7 := Num (Finite 7)], row3, row4[7 := Null]]"
    by (simp add: example_table_rows row_defs to_numeric_def example_lib_def digits_value_def asc_def)
  show ?thesis
    by (simp add: coerce_plazas_numeric_def g r)
qed

lemma example_coerced_cleaned:
  "drop_total_like_rows example_lib
     (example_table\<lparr>rows := [row1[7 := Num (Finite 3)], row2[7 := Num (Finite 7)], row3, row4[7 := Null]]\<rparr>)
   = Inr example_clean"
proof -
  let ?t = "example_table\<lparr>rows := [row1[7 := Num (Finite 3)], row2[7 := Num (Finite 7)], row3, row4[7 := Null]]\<rparr>"
  have c: "columns ?t = columns example_table" by simp
  have u: "count_list (columns ?t) Direccion = 1" "count_list (columns ?t) Tipo_de_Plaza = 1"
    "count_list (columns ?t) Unidad = 1" "count_list (columns ?t) Coordinacion = 1"
    unfolding c by (rule example_table_unique)+
  have k: "filter (spec_row_kept example_lib (columns ?t)) (rows ?t) = [row1[7 := Num (Finite 3)], row4[7 := Null]]"
    unfolding c
    by (simp add: cell_eval example_table_pos row_defs example_lib_def asc_def)
  have "drop_total_like_rows example_lib ?t = Inr (keep_rows (spec_row_kept example_lib (columns ?t)) ?t)"
    using u by (rule drop_total_like_rows_unique)
  also have "keep_rows (spec_row_kept example_lib (columns ?t)) ?t = example_clean"
    unfolding keep_rows_def k by (simp add: example_clean_def example_table_def)
  finally show ?thesis .
qed

lemma example_pipeline: "pipeline example_lib example_upload = Inr example_clean"
  by (simp add: pipeline_def Let_def example_upload_resolved example_table_validated
      example_table_coerced example_coerced_cleaned)

lemma example_clean_pos:
  "pos (columns example_clean) Unidad = 0"
  "pos (columns example_clean) Coordinacion = 1"
  "pos (columns example_clean) Direccion = 2"
  by (simp_all add: example_clean_def field_defs asc_def)

lemma example_clean_rows: "rows example_clean = [row1[7 := Num (Finite 3)], row4[7 := Null]]"
  by (simp add: example_clean_def)

section \<open>Lemmas on the Alias Resolver\<close>

lemma norm_alias: "list_all (\<lambda>opt. norm L opt = opt) alias_strings"
  by (simp add: alias_strings_def aliases_def str_eval)

lemma alias_strings_distinct: "distinct alias_strings \<and> [] \<notin> set alias_strings"
  by (simp add: alias_strings_def aliases_def asc_def)

lemma norm_canonical: "list_all (\<lambda>e. norm L (fst e) \<in> set (snd e)) aliases"
  by (simp add: aliases_def str_eval field_defs)

lemma alias_in_strings: "e \<in> set aliases \<Longrightarrow> opt \<in> set (snd e) \<Longrightarrow> opt \<in> set alias_strings"
  by (auto simp: alias_strings_def)

lemma norm_alias_id: "e \<in> set aliases \<Longrightarrow> opt \<in> set (snd e) \<Longrightarrow> norm L opt = opt"
  using norm_alias [of L] alias_in_strings [of e opt] by (simp add: list_all_iff)

lemma alias_keys_strings: "alias_keys L = set alias_strings"
proof -
  have "map (norm L) alias_strings = alias_strings"
    using norm_alias [of L] by (simp add: list_all_iff map_idI)
  then show ?thesis by (simp add: alias_keys_def)
qed

lemma owner_unique_gen:
  "distinct (concat (map snd tbl)) \<Longrightarrow> e \<in> set tbl \<Longrightarrow> e' \<in> set tbl \<Longrightarrow>
   opt \<in> set (snd e) \<Longrightarrow> opt \<in> set (snd e') \<Longrightarrow> e = e'"
  by (induction tbl) auto

lemma owner_unique:
  "e \<in> set aliases \<Longrightarrow> e' \<in> set aliases \<Longrightarrow> opt \<in> set (snd e) \<Longrightarrow> opt \<in> set (snd e') \<Longrightarrow> e = e'"
  using alias_strings_distinct owner_unique_gen [of aliases e e' opt]
  by (simp add: alias_strings_def)

lemma col_norm_map_snoc:
  "col_norm_map L (cols @ [c]) = (col_norm_map L cols)(norm L c \<mapsto> c)"
  by (simp add: col_norm_map_def)

lemma col_norm_map_Nil: "col_norm_map L [] = Map.empty"
  by (simp add: col_norm_map_def)

lemma col_norm_map_Some:
  "col_norm_map L cols k = Some h \<Longrightarrow> h \<in> set cols \<and> norm L h = k"
  by (induction cols rule: rev_induct)
     (auto simp: col_norm_map_snoc col_norm_map_Nil split: if_splits)

lemma col_norm_map_defined:
  "c \<in> set cols \<Longrightarrow> \<exists>h. col_norm_map L cols (norm L c) = Some h"
  by (induction cols rule: rev_induct) (auto simp: col_norm_map_snoc)

lemma col_norm_map_last:
  "j < length cols \<Longrightarrow> norm L (cols ! j) = k \<Longrightarrow>
   (\<forall>l. j < l \<and> l < length cols \<longrightarrow> norm L (cols ! l) \<noteq> k) \<Longrightarrow>
   col_norm_map L cols k = Some (cols ! j)"
proof (induction cols rule: rev_induct)
  case Nil
  then show ?case by simp
next
  case (snoc c cols)
  show ?case
  proof (cases "j = length cols")
    case True
    with snoc.prems show ?thesis by (simp add: col_norm_map_snoc)
  next
    case False
    with snoc.prems have j: "j < length cols" by simp
    from snoc.prems(3) j have "norm L c \<noteq> k"
      by (auto dest: spec [of _ "length cols"])
    moreover have "col_norm_map L cols k = Some (cols ! j)"
    proof (rule snoc.IH [OF j])
      from snoc.prems(2) j show "norm L (cols ! j) = k" by (simp add: nth_append)
      show "\<forall>l. j < l \<and> l < length cols \<longrightarrow> norm L (cols ! l) \<noteq> k"
      proof (intro allI impI)
        fix l assume l: "j < l \<and> l < length cols"
        with snoc.prems(3) have "norm L ((cols @ [c]) ! l) \<noteq> k" by simp
        with l show "norm L (cols ! l) \<noteq> k" by (simp add: nth_append)
      qed
    qed
    ultimately show ?thesis using j by (simp add: col_norm_map_snoc nth_append)
  qed
qed

lemma find_original_Some:
  "find_original L m opts = Some h \<Longrightarrow> \<exists>opt \<in> set opts. m (norm L opt) = Some h"
  by (induction opts) (auto split: option.splits)

lemma find_original_None:
  "find_original L m opts = None \<longleftrightarrow> (\<forall>opt \<in> set opts. m (norm L opt) = None)"
  by (induction opts) (auto split: option.splits)

lemma find_original_first:
  "(\<forall>opt \<in> set before. m (norm L opt) = None) \<Longrightarrow> m (norm L k) = Some h \<Longrightarrow>
   find_original L m (before @ k # after) = Some h"
  by (induction before) auto

lemma foldl_add_rename_Some:
  "foldl (add_rename L m cols) rm tbl h = Some G \<Longrightarrow>
   rm h = Some G \<or> (\<exists>e \<in> set tbl. fst e = G \<and> find_original L m (snd e) = Some h)"
  by (induction tbl arbitrary: rm)
     (fastforce simp: add_rename_def split: option.splits if_splits)+

lemma foldl_add_rename_found:
  "rm h = Some G \<or> (\<exists>e \<in> set tbl. fst e = G \<and> find_original L m (snd e) = Some h) \<Longrightarrow>
   h \<noteq> [] \<Longrightarrow> h \<in> set cols \<Longrightarrow>
   (\<forall>e' \<in> set tbl. find_original L m (snd e') = Some h \<longrightarrow> fst e' = G) \<Longrightarrow>
   foldl (add_rename L m cols) rm tbl h = Some G"
proof (induction tbl arbitrary: rm)
  case Nil
  then show ?case by simp
next
  case (Cons a tbl)
  have "add_rename L m cols rm a h = Some G
        \<or> (\<exists>e \<in> set tbl. fst e = G \<and> find_original L m (snd e) = Some h)"
    using Cons.prems by (auto simp: add_rename_def split: option.splits)
  with Cons.prems show ?case by (simp add: Cons.IH)
qed

lemma norm_Nil: "norm L [] = []"
  by (simp add: str_eval)

lemma alias_key_mem:
  "e \<in> set aliases \<Longrightarrow> opt \<in> set (snd e) \<Longrightarrow> norm L opt \<in> alias_keys L"
  by (auto simp: alias_keys_def alias_strings_def)

lemma alias_nonempty: "e \<in> set aliases \<Longrightarrow> opt \<in> set (snd e) \<Longrightarrow> norm L opt \<noteq> []"
  using alias_strings_distinct alias_in_strings [of e opt] norm_alias_id [of e opt L] by auto

lemma alias_norm_inj:
  "e \<in> set aliases \<Longrightarrow> opt \<in> set (snd e) \<Longrightarrow> e' \<in> set aliases \<Longrightarrow> opt' \<in> set (snd e') \<Longrightarrow>
   norm L opt = norm L opt' \<Longrightarrow> e = e' \<and> opt = opt'"
  using norm_alias_id [of e opt L] norm_alias_id [of e' opt' L] owner_unique [of e e' opt]
  by auto

lemma rename_source:
  "build_rename_map L cols aliases h = Some G \<Longrightarrow>
   \<exists>e \<in> set aliases. fst e = G
      \<and> (\<exists>opt \<in> set (snd e). col_norm_map L cols (norm L opt) = Some h)"
  unfolding build_rename_map_def
  by (drule foldl_add_rename_Some) (auto dest: find_original_Some)

lemma rename_only_alias_headers:
  "build_rename_map L cols aliases h = Some G \<Longrightarrow> norm L h \<in> alias_keys L"
  by (drule rename_source) (auto dest!: col_norm_map_Some simp: alias_key_mem)

lemma rename_columns_nth:
  "j < length cols \<Longrightarrow>
   rename_columns rm cols ! j = (case rm (cols ! j) of None \<Rightarrow> cols ! j | Some n \<Rightarrow> n)"
  by (simp add: rename_columns_def)

lemma rename_found:
  assumes e: "e \<in> set aliases" and f: "find_original L (col_norm_map L cols) (snd e) = Some h"
  shows "build_rename_map L cols aliases h = Some (fst e)"
  unfolding build_rename_map_def
proof (rule foldl_add_rename_found)
  from f obtain opt where o: "opt \<in> set (snd e)" "col_norm_map L cols (norm L opt) = Some h"
    by (auto dest: find_original_Some)
  then have h: "h \<in> set cols" "norm L h = norm L opt"
    by (auto dest: col_norm_map_Some)
  show "Map.empty h = Some (fst e)
        \<or> (\<exists>e' \<in> set aliases. fst e' = fst e
              \<and> find_original L (col_norm_map L cols) (snd e') = Some h)"
    using e f by blast
  show "h \<in> set cols" by fact
  show "h \<noteq> []"
    using h(2) alias_nonempty [OF e o(1), of L] norm_Nil [of L] by auto
  show "\<forall>e' \<in> set aliases.
          find_original L (col_norm_map L cols) (snd e') = Some h \<longrightarrow> fst e' = fst e"
  proof (intro ballI impI)
    fix e' assume e': "e' \<in> set aliases"
      and f': "find_original L (col_norm_map L cols) (snd e') = Some h"
    from f' obtain opt' where o': "opt' \<in> set (snd e')"
        "col_norm_map L cols (norm L opt') = Some h"
      by (auto dest: find_original_Some)
    then have "norm L h = norm L opt'" by (auto dest: col_norm_map_Some)
    with h(2) have "norm L opt = norm L opt'" by simp
    from alias_norm_inj [OF e o(1) e' o'(1) this] show "fst e' = fst e" by simp
  qed
qed

lemma apply_aliases_columns:
  "columns (apply_aliases L df) =
     rename_columns (build_rename_map L (columns df) aliases) (columns df)"
  by (simp add: apply_aliases_def)

lemma apply_aliases_rows: "rows (apply_aliases L df) = rows df"
  by (simp add: apply_aliases_def)

lemma passthrough:
  assumes "j < length (columns df)" and "norm L (columns df ! j) \<notin> alias_keys L"
  shows "columns (apply_aliases L df) ! j = columns df ! j"
proof -
  have "build_rename_map L (columns df) aliases (columns df ! j) = None"
    using assms(2) rename_only_alias_headers [of L "columns df" "columns df ! j"]
    by (cases "build_rename_map L (columns df) aliases (columns df ! j)") auto
  with assms(1) show ?thesis
    by (simp add: apply_aliases_columns rename_columns_nth)
qed

lemma count_list_update_one:
  "i < length xs \<Longrightarrow> (\<forall>j < length xs. j \<noteq> i \<longrightarrow> xs ! j \<noteq> x) \<Longrightarrow> count_list (xs[i := x]) x = 1"
proof -
  assume i: "i < length xs" and o: "\<forall>j < length xs. j \<noteq> i \<longrightarrow> xs ! j \<noteq> x"
  have a: "x \<notin> set (take i xs)"
    using i o by (auto simp: in_set_conv_nth)
  have b: "x \<notin> set (drop (Suc i) xs)"
  proof
    assume "x \<in> set (drop (Suc i) xs)"
    then obtain n where "n < length xs - Suc i" "drop (Suc i) xs ! n = x"
      by (auto simp: in_set_conv_nth)
    then have "Suc i + n < length xs" "xs ! (Suc i + n) = x" by auto
    with o show False by auto
  qed
  from i have "xs[i := x] = take i xs @ x # drop (Suc i) xs"
    by (rule upd_conv_take_nth_drop)
  with a b show ?thesis by (simp add: count_list_0_iff)
qed

lemma single_match:
  assumes e: "(F, opts) \<in> set aliases" and v: "v \<in> set opts"
    and i: "i < length (columns df)"
    and n: "norm L (columns df ! i) = norm L v"
    and u: "\<forall>j < length (columns df). j \<noteq> i \<longrightarrow> norm L (columns df ! j) \<notin> alias_keys L"
  shows "columns (apply_aliases L df) = (columns df)[i := F]"
    and "count_list (columns (apply_aliases L df)) F = 1"
proof -
  let ?cols = "columns df" and ?m = "col_norm_map L (columns df)"
  let ?h = "columns df ! i"
  have vk: "norm L v \<in> alias_keys L"
    using alias_key_mem [OF e, of v L] v by simp
  have only: "c = ?h" if "c \<in> set ?cols" "norm L c \<in> alias_keys L" for c
  proof -
    from that(1) obtain j where j: "j < length ?cols" "?cols ! j = c"
      by (auto simp: in_set_conv_nth)
    with u that(2) have "j = i" by auto
    with j show ?thesis by simp
  qed
  have hin: "?h \<in> set ?cols" using i by simp
  have mv: "?m (norm L v) = Some ?h"
  proof -
    from col_norm_map_defined [OF hin, of L] obtain h' where h': "?m (norm L ?h) = Some h'"
      by blast
    then have "h' \<in> set ?cols" "norm L h' = norm L ?h"
      by (auto dest: col_norm_map_Some)
    with n vk have "h' = ?h" by (auto intro: only)
    with h' n show ?thesis by simp
  qed
  have found: "find_original L ?m opts = Some ?h"
  proof -
    have "find_original L ?m opts \<noteq> None"
      using v mv by (auto simp: find_original_None)
    then obtain h' where f: "find_original L ?m opts = Some h'" by auto
    then obtain opt where "opt \<in> set opts" "?m (norm L opt) = Some h'"
      by (auto dest: find_original_Some)
    then have "h' \<in> set ?cols" "norm L h' \<in> alias_keys L"
      using alias_key_mem [OF e, of opt L] by (auto dest: col_norm_map_Some)
    then have "h' = ?h" by (rule only)
    with f show ?thesis by simp
  qed
  have r1: "build_rename_map L ?cols aliases ?h = Some F"
    using rename_found [OF e, of L ?cols ?h] found by simp
  have r2: "build_rename_map L ?cols aliases c = None" if "c \<in> set ?cols" "c \<noteq> ?h" for c
  proof (cases "build_rename_map L ?cols aliases c")
    case None
    then show ?thesis .
  next
    case (Some G)
    then have "norm L c \<in> alias_keys L" by (rule rename_only_alias_headers)
    with that show ?thesis by (auto dest: only)
  qed
  have other: "?cols ! j \<noteq> ?h" if "j < length ?cols" "j \<noteq> i" for j
    using that u n vk by auto
  show cols: "columns (apply_aliases L df) = ?cols[i := F]"
  proof (rule nth_equalityI)
    show "length (columns (apply_aliases L df)) = length (?cols[i := F])"
      by (simp add: apply_aliases_columns rename_columns_def)
  next
    fix j assume "j < length (columns (apply_aliases L df))"
    then have j: "j < length ?cols"
      by (simp add: apply_aliases_columns rename_columns_def)
    show "columns (apply_aliases L df) ! j = ?cols[i := F] ! j"
    proof (cases "j = i")
      case True
      with i r1 show ?thesis
        by (simp add: apply_aliases_columns rename_columns_nth)
    next
      case False
      with j other have "?cols ! j \<noteq> ?h" by simp
      with j have "build_rename_map L ?cols aliases (?cols ! j) = None"
        by (intro r2) simp_all
      with j False show ?thesis
        by (simp add: apply_aliases_columns rename_columns_nth)
    qed
  qed
  have Fk: "norm L F \<in> alias_keys L"
  proof -
    from norm_canonical [of L] e have "norm L F \<in> set opts"
      by (auto simp: list_all_iff)
    then have "norm L (norm L F) = norm L F"
      using norm_alias_id [OF e, of "norm L F" L] by simp
    with \<open>norm L F \<in> set opts\<close> alias_key_mem [OF e, of "norm L F" L] show ?thesis by simp
  qed
  have "\<forall>j < length ?cols. j \<noteq> i \<longrightarrow> ?cols ! j \<noteq> F"
    using u Fk by auto
  with i show "count_list (columns (apply_aliases L df)) F = 1"
    unfolding cols by (rule count_list_update_one)
qed

lemma last_wins:
  assumes e: "(F, before @ k # after) \<in> set aliases"
    and b: "\<forall>opt \<in> set before. \<forall>c \<in> set (columns df). norm L c \<noteq> norm L opt"
    and j: "j < length (columns df)"
    and n: "norm L (columns df ! j) = norm L k"
    and l: "\<forall>l. j < l \<and> l < length (columns df) \<longrightarrow> norm L (columns df ! l) \<noteq> norm L k"
  shows "columns (apply_aliases L df) ! j = F"
    and "\<forall>i < length (columns df).
           norm L (columns df ! i) = norm L k \<and> columns df ! i \<noteq> columns df ! j
           \<longrightarrow> columns (apply_aliases L df) ! i = columns df ! i"
proof -
  let ?cols = "columns df" and ?m = "col_norm_map L (columns df)"
  have mk: "?m (norm L k) = Some (?cols ! j)"
    using j n l by (rule col_norm_map_last)
  have mb: "\<forall>opt \<in> set before. ?m (norm L opt) = None"
  proof
    fix opt assume o: "opt \<in> set before"
    show "?m (norm L opt) = None"
    proof (cases "?m (norm L opt)")
      case None
      then show ?thesis .
    next
      case (Some h)
      then have "h \<in> set ?cols" "norm L h = norm L opt"
        by (auto dest: col_norm_map_Some)
      with b o show ?thesis by auto
    qed
  qed
  have f: "find_original L ?m (snd (F, before @ k # after)) = Some (?cols ! j)"
    using find_original_first [OF mb mk] by simp
  from rename_found [OF e f]
  have "build_rename_map L ?cols aliases (?cols ! j) = Some F" by simp
  with j show "columns (apply_aliases L df) ! j = F"
    by (simp add: apply_aliases_columns rename_columns_nth)
  show "\<forall>i < length ?cols.
           norm L (?cols ! i) = norm L k \<and> ?cols ! i \<noteq> ?cols ! j
           \<longrightarrow> columns (apply_aliases L df) ! i = ?cols ! i"
  proof (intro allI impI)
    fix i assume i: "i < length ?cols"
      and d: "norm L (?cols ! i) = norm L k \<and> ?cols ! i \<noteq> ?cols ! j"
    have "build_rename_map L ?cols aliases (?cols ! i) = None"
    proof (cases "build_rename_map L ?cols aliases (?cols ! i)")
      case None
      then show ?thesis .
    next
      case (Some G)
      then obtain opt where "?m (norm L opt) = Some (?cols ! i)"
        by (auto dest: rename_source)
      moreover from this have "norm L (?cols ! i) = norm L opt"
        by (auto dest: col_norm_map_Some)
      ultimately have "?m (norm L k) = Some (?cols ! i)" using d by simp
      with mk d show ?thesis by simp
    qed
    with i show "columns (apply_aliases L df) ! i = ?cols ! i"
      by (simp add: apply_aliases_columns rename_columns_nth)
  qed
qed

section \<open>Lemmas on the position-type chart\<close>

lemma set_uniques: "set (uniques xs) = set xs"
  by (simp add: uniques_def)

lemma distinct_uniques: "distinct (uniques xs)"
  by (simp add: uniques_def)

lemma distinct_same_length:
  assumes "distinct es" and "set s = set es" and "length s = length es"
  shows "distinct s"
proof -
  from assms(1) have "card (set es) = length es" by (rule distinct_card)
  with assms(2,3) have "card (set s) = length s" by simp
  then show ?thesis by (rule card_distinct)
qed

lemma value_counts_set:
  "sorts_descending srt \<Longrightarrow>
   set (value_counts srt xs) = (\<lambda>v. (v, count_list xs v)) ` (set xs - {Null})"
  by (auto simp: value_counts_def sorts_descending_def set_uniques)

lemma value_counts_fst: "sorts_descending srt \<Longrightarrow> fst ` set (value_counts srt xs) = set xs - {Null}"
  by (force simp: value_counts_set)

lemma value_counts_snd:
  "sorts_descending srt \<Longrightarrow> e \<in> set (value_counts srt xs) \<Longrightarrow> snd e = count_list xs (fst e)"
  by (auto simp: value_counts_set)

lemma value_counts_distinct:
  assumes "sorts_descending srt"
  shows "distinct (map fst (value_counts srt xs))"
proof -
  let ?u = "map (\<lambda>v. (v, count_list xs v)) (uniques (filter (\<lambda>c. c \<noteq> Null) xs))"
  have "distinct ?u"
    by (simp add: distinct_map distinct_uniques inj_on_def)
  moreover from assms have "set (srt ?u) = set ?u" and "length (srt ?u) = length ?u"
    by (simp_all add: sorts_descending_def)
  ultimately have "distinct (srt ?u)" by (rule distinct_same_length)
  then have "distinct (value_counts srt xs)"
    by (simp add: value_counts_def)
  moreover have "inj_on fst (set (value_counts srt xs))"
    using assms by (auto simp: value_counts_set inj_on_def)
  ultimately show ?thesis by (simp add: distinct_map)
qed

lemma value_counts_sorted:
  "sorts_descending srt \<Longrightarrow> sorted_wrt (\<lambda>a b. snd b \<le> snd a) (value_counts srt xs)"
  by (simp add: value_counts_def sorts_descending_def)

lemma value_counts_map_of:
  assumes "sorts_descending srt"
  shows "map_of (value_counts srt xs) v =
     (if v \<in> set xs \<and> v \<noteq> Null then Some (count_list xs v) else None)"
proof (cases "v \<in> set xs \<and> v \<noteq> Null")
  case True
  then have "(v, count_list xs v) \<in> set (value_counts srt xs)"
    using assms by (auto simp: value_counts_set)
  with value_counts_distinct [OF assms, of xs] True show ?thesis by simp
next
  case False
  then have "v \<notin> fst ` set (value_counts srt xs)"
    using assms by (auto simp: value_counts_fst)
  then have "map_of (value_counts srt xs) v = None" by (simp add: map_of_eq_None_iff)
  with False show ?thesis by auto
qed

lemma reindex_dropna_value_counts:
  "sorts_descending srt \<Longrightarrow>
   reindex_dropna labels (value_counts srt xs) =
     map (\<lambda>v. (v, count_list xs v)) (filter (\<lambda>v. v \<in> set xs) (map Text labels))"
  by (induction labels)
     (simp_all add: reindex_dropna_def map_filter_simps value_counts_map_of)

lemma fst_filter: "fst ` set (filter (\<lambda>e. Q (fst e)) vc) = {v \<in> fst ` set vc. Q v}"
  by force

lemma fst_set_filter:
  "fst ` set vc = A - B \<Longrightarrow> set (map fst (filter (\<lambda>e. fst e \<notin> C) vc)) = A - B - C"
  using fst_filter [of "\<lambda>v. v \<notin> C" vc] by auto

lemma drop_index_facts:
  assumes "sorts_descending srt"
  shows "set (map fst (drop_index labels (value_counts srt xs)))
           = set xs - {Null} - set (map Text labels)"
    and "distinct (map fst (drop_index labels (value_counts srt xs)))"
    and "sorted_wrt (\<lambda>a b. count_list xs b \<le> count_list xs a)
           (map fst (drop_index labels (value_counts srt xs)))"
proof -
  let ?P = "\<lambda>e. fst e \<notin> set (map Text labels)"
  let ?vc = "value_counts srt xs"
  show "set (map fst (drop_index labels ?vc)) = set xs - {Null} - set (map Text labels)"
    using fst_set_filter [OF value_counts_fst [OF assms, of xs], of "set (map Text labels)"]
    by (simp add: drop_index_def)
  show "distinct (map fst (drop_index labels ?vc))"
    using value_counts_distinct [OF assms, of xs] by (simp add: drop_index_def distinct_map_filter)
  have "sorted_wrt (\<lambda>a b. snd b \<le> snd a) (filter ?P ?vc)"
    using value_counts_sorted [OF assms, of xs] by (rule sorted_wrt_filter)
  then have "sorted_wrt (\<lambda>a b. count_list xs (fst b) \<le> count_list xs (fst a)) (filter ?P ?vc)"
  proof (rule sorted_wrt_mono_rel [rotated])
    fix a b assume "a \<in> set (filter ?P ?vc)" "b \<in> set (filter ?P ?vc)"
      and "snd b \<le> snd a"
    then show "count_list xs (fst b) \<le> count_list xs (fst a)"
      using value_counts_snd [OF assms, of a xs] value_counts_snd [OF assms, of b xs] by simp
  qed
  then show "sorted_wrt (\<lambda>a b. count_list xs b \<le> count_list xs a)
     (map fst (drop_index labels ?vc))"
    by (simp add: drop_index_def sorted_wrt_map)
qed

lemma drop_index_snd:
  "sorts_descending srt \<Longrightarrow>
   map snd (drop_index labels (value_counts srt xs))
     = map (count_list xs) (map fst (drop_index labels (value_counts srt xs)))"
  by (auto simp: drop_index_def dest: value_counts_snd)

lemma puesto_order_eq:
  "puesto_order srt xs =
     reindex_dropna ORDEN_PUESTO (value_counts srt xs)
       @ drop_index ORDEN_PUESTO (value_counts srt xs)"
  by (simp add: puesto_order_def Let_def)

lemma puesto_order_spec:
  assumes "sorts_descending srt"
  shows "\<exists>otros. map fst (puesto_order srt xs)
              = filter (\<lambda>v. v \<in> set xs) (map Text ORDEN_PUESTO) @ otros
     \<and> set otros = set xs - {Null} - set (map Text ORDEN_PUESTO)
     \<and> distinct otros
     \<and> sorted_wrt (\<lambda>a b. count_list xs b \<le> count_list xs a) otros
     \<and> map snd (puesto_order srt xs) = map (count_list xs) (map fst (puesto_order srt xs))"
proof (intro exI conjI)
  let ?o = "map fst (drop_index ORDEN_PUESTO (value_counts srt xs))"
  show "map fst (puesto_order srt xs) = filter (\<lambda>v. v \<in> set xs) (map Text ORDEN_PUESTO) @ ?o"
    by (simp add: puesto_order_eq reindex_dropna_value_counts [OF assms] comp_def)
  show "set ?o = set xs - {Null} - set (map Text ORDEN_PUESTO)"
    by (rule drop_index_facts [OF assms])
  show "distinct ?o" by (rule drop_index_facts [OF assms])
  show "sorted_wrt (\<lambda>a b. count_list xs b \<le> count_list xs a) ?o"
    by (rule drop_index_facts [OF assms])
  show "map snd (puesto_order srt xs) = map (count_list xs) (map fst (puesto_order srt xs))"
    using drop_index_snd [OF assms, of ORDEN_PUESTO xs]
    by (simp add: puesto_order_eq reindex_dropna_value_counts [OF assms] comp_def)
qed

lemma fillna_not_Null: "v \<noteq> Null \<Longrightarrow> fillna v c \<noteq> Null \<and> Null \<noteq> fillna v c"
  by (cases c) (auto simp: fillna_def)

lemma puesto_series_no_Null: "puesto_series df = Inr series \<Longrightarrow> Null \<notin> set series"
  using fillna_not_Null [of "Text (asc ''Sin Tipo de Puesto'')"]
  by (auto simp: puesto_series_def split: sum.splits)

lemma stable_descending_sorts: "sorts_descending stable_descending"
proof -
  have "sorted_wrt (\<lambda>a b. snd b \<le> snd a) (stable_descending es)" for es :: counts
  proof -
    have "sorted (map (\<lambda>e. - int (snd e)) (stable_descending es))"
      by (simp add: stable_descending_def)
    then have "sorted_wrt (\<lambda>a b. - int (snd a) \<le> - int (snd b)) (stable_descending es)"
      by (simp add: sorted_map)
    then show ?thesis
      by (rule sorted_wrt_mono_rel [rotated]) simp
  qed
  then show ?thesis
    by (simp add: sorts_descending_def stable_descending_def)
qed

lemma example_puestos_order:
  "puesto_order stable_descending example_puestos =
     [(Text (asc ''Gerente''), 3), (Text (asc ''Enlace''), 5), (Text (asc ''UnknownRole''), 2)]"
  by (simp add: puesto_order_def Let_def value_counts_def reindex_dropna_def drop_index_def
      map_filter_simps uniques_def stable_descending_def ORDEN_PUESTO_def example_puestos_def
      asc_def)

lemma example_puestos_hierarchy:
  "filter (\<lambda>v. v \<in> set example_puestos) (map Text ORDEN_PUESTO)
     = [Text (asc ''Gerente''), Text (asc ''Enlace'')]"
  by (simp add: ORDEN_PUESTO_def example_puestos_def asc_def)

lemma example_puestos_others:
  "set example_puestos - {Null} - set (map Text ORDEN_PUESTO) = {Text (asc ''UnknownRole'')}"
  by (auto simp: ORDEN_PUESTO_def example_puestos_def asc_def)

lemma example_table_puesto:
  "count_list (columns example_table) Tipo_de_Puesto = 1"
  "map (\<lambda>r. fillna (Text (asc ''Sin Tipo de Puesto'')) (r ! pos (columns example_table) Tipo_de_Puesto))
     (rows example_table)
   = [Text (asc ''Gerente''), Text (asc ''Enlace''), Text (asc ''Enlace''), Text (asc ''Enlace'')]"
  by (simp_all add: example_table_def field_defs row_defs fillna_def asc_def)

lemma example_table_puesto_order:
  "puesto_order stable_descending
     [Text (asc ''Gerente''), Text (asc ''Enlace''), Text (asc ''Enlace''), Text (asc ''Enlace'')]
   = [(Text (asc ''Gerente''), 1), (Text (asc ''Enlace''), 3)]"
  by (simp add: puesto_order_def Let_def value_counts_def reindex_dropna_def drop_index_def
      map_filter_simps uniques_def stable_descending_def ORDEN_PUESTO_def asc_def)

section \<open>Header Normalizer: properties\<close>

text \<open>
  C1. The claim: no normalized label holds two consecutive spaces. The code replaces
  two spaces by one in a single pass, so a run of three spaces leaves two: the label
  \<open>a___b\<close> with three spaces comes out as \<open>a__b\<close>, which still contains a double space.
\<close>

theorem normalize_columns_leaves_double_space:
  "columns (normalize_columns \<lparr>columns = [asc ''a   b''], rows = []\<rparr>) = [asc ''a  b'']
   \<and> substr_in (asc ''  '') (asc ''a  b'')"
  by (simp add: normalize_columns_def normalize_label_def strip_def is_space_def asc_def)

text \<open>
  C2. The claim: normalizing twice equals normalizing once. On the label with three
  spaces the first pass leaves two spaces and the second pass removes one more, so the
  two results differ.
\<close>

theorem normalize_columns_not_idempotent:
  "columns (normalize_columns (normalize_columns \<lparr>columns = [asc ''a   b''], rows = []\<rparr>))
     = [asc ''a b'']
   \<and> columns (normalize_columns \<lparr>columns = [asc ''a   b''], rows = []\<rparr>) = [asc ''a  b'']
   \<and> asc ''a b'' \<noteq> asc ''a  b''"
  by (simp add: normalize_columns_def normalize_label_def strip_def is_space_def asc_def)

section \<open>Alias Resolver: properties\<close>

text \<open>
  C6. Let \<open>v\<close> be a variant the alias table lists for the canonical field \<open>F\<close>, and let
  the header at position \<open>i\<close> be the only header of the table whose search key is a key
  of the alias table, that key being the one of \<open>v\<close> (so the header is \<open>v\<close> in any casing
  and whitespace that normalizes to it). Then resolution renames exactly that header to
  \<open>F\<close>: the columns are the old ones with \<open>F\<close> at position \<open>i\<close>, \<open>F\<close> occurs exactly once
  among them, and the rows are untouched. In any table, a header whose search key is no
  key of the alias table keeps its name.
\<close>

theorem alias_resolution_single_header:
  "((F, opts) \<in> set aliases \<and> v \<in> set opts \<and> i < length (columns df)
      \<and> norm L (columns df ! i) = norm L v
      \<and> (\<forall>j < length (columns df). j \<noteq> i \<longrightarrow> norm L (columns df ! j) \<notin> alias_keys L)
    \<longrightarrow> columns (apply_aliases L df) = (columns df)[i := F]
        \<and> count_list (columns (apply_aliases L df)) F = 1
        \<and> rows (apply_aliases L df) = rows df)
   \<and> (\<forall>j < length (columns df). norm L (columns df ! j) \<notin> alias_keys L
        \<longrightarrow> columns (apply_aliases L df) ! j = columns df ! j)"
  using single_match [of F opts v i df L] passthrough [of _ df L] apply_aliases_rows [of L df]
  by blast

theorem alias_resolution_single_header_witness:
  "columns (apply_aliases example_lib example_single) = [asc ''Clave'', Plazas, asc ''Notas'']
   \<and> count_list (columns (apply_aliases example_lib example_single)) Plazas = 1
   \<and> columns (apply_aliases example_lib example_single) ! 0 = asc ''Clave''"
proof -
  let ?opts = "[asc ''plazas'', asc ''no. plazas'', asc ''n'' @ [250] @ asc ''mero de plazas'',
         asc ''numero de plazas'', asc ''num plazas'']"
  have c: "columns example_single = [asc ''Clave'', asc ''  NUM   Plazas '', asc ''Notas'']"
    by (simp add: example_single_def)
  have h1: "(Plazas, ?opts) \<in> set aliases" by (simp add: aliases_def)
  have h2: "asc ''num plazas'' \<in> set ?opts" by simp
  have h3: "1 < length (columns example_single)" by (simp add: c)
  have h4: "norm example_lib (columns example_single ! 1) = norm example_lib (asc ''num plazas'')"
    by (simp add: c str_eval example_lib_def)
  have k0: "norm example_lib (asc ''Clave'') \<notin> alias_keys example_lib"
    unfolding alias_keys_strings
    by (simp add: alias_strings_def aliases_def str_eval example_lib_def)
  have k2: "norm example_lib (asc ''Notas'') \<notin> alias_keys example_lib"
    unfolding alias_keys_strings
    by (simp add: alias_strings_def aliases_def str_eval example_lib_def)
  have h5: "\<forall>j < length (columns example_single). j \<noteq> 1 \<longrightarrow>
              norm example_lib (columns example_single ! j) \<notin> alias_keys example_lib"
  proof (intro allI impI)
    fix j assume "j < length (columns example_single)" and "j \<noteq> 1"
    then have "j = 0 \<or> j = 2" by (auto simp: c)
    then show "norm example_lib (columns example_single ! j) \<notin> alias_keys example_lib"
      using k0 k2 by (auto simp: c)
  qed
  have h6: "0 < length (columns example_single)
            \<and> norm example_lib (columns example_single ! 0) \<notin> alias_keys example_lib"
    using k0 by (simp add: c)
  note t = alias_resolution_single_header [of Plazas ?opts "asc ''num plazas''" 1
              example_single example_lib]
  from t h1 h2 h3 h4 h5
  have a: "columns (apply_aliases example_lib example_single) = (columns example_single)[1 := Plazas]
        \<and> count_list (columns (apply_aliases example_lib example_single)) Plazas = 1"
    by blast
  from t h6 have b: "columns (apply_aliases example_lib example_single) ! 0
                       = columns example_single ! 0"
    by blast
  from a have a1: "columns (apply_aliases example_lib example_single)
                    = [asc ''Clave'', Plazas, asc ''Notas'']"
    by (simp add: c)
  from a have a2: "count_list (columns (apply_aliases example_lib example_single)) Plazas = 1"
    by blast
  from b have b1: "columns (apply_aliases example_lib example_single) ! 0 = asc ''Clave''"
    by (simp add: c)
  from a1 a2 b1 show ?thesis by blast
qed

text \<open>
  C9. The claim as stated: whenever two distinct headers have the same search key, a key
  of field \<open>F\<close>, the later one is renamed to \<open>F\<close>. That fails when a header matches a
  variant listed earlier for \<open>F\<close>: the resolver breaks at the first listed variant that
  has a header, so with the headers \<open>tipo puesto\<close>, \<open>Tipo Puesto\<close>, \<open>tipo de puesto\<close> the
  third is renamed and both of the first two keep their names.
\<close>

theorem alias_duplicate_key_counterexample:
  "(Tipo_de_Puesto, [asc ''tipo de puesto'', asc ''tipo puesto'', asc ''tipo_puesto'']) \<in> set aliases
   \<and> norm example_lib (columns example_priority ! 0) = norm example_lib (asc ''tipo puesto'')
   \<and> norm example_lib (columns example_priority ! 1) = norm example_lib (asc ''tipo puesto'')
   \<and> columns example_priority ! 0 \<noteq> columns example_priority ! 1
   \<and> norm example_lib (columns example_priority ! 2) \<noteq> norm example_lib (asc ''tipo puesto'')
   \<and> length (columns example_priority) = 3
   \<and> columns (apply_aliases example_lib example_priority)
       = [asc ''tipo puesto'', asc ''Tipo Puesto'', Tipo_de_Puesto]
   \<and> columns (apply_aliases example_lib example_priority) ! 1 \<noteq> Tipo_de_Puesto"
  by (simp add: example_priority_def example_lib_def str_eval alias_eval field_defs)

text \<open>
  C9, amended. Let \<open>k\<close> be a variant of field \<open>F\<close> such that no header has the search key
  of a variant listed before \<open>k\<close> for \<open>F\<close>, and let \<open>j\<close> be the last position whose header
  has the search key of \<open>k\<close>. Then the header at \<open>j\<close> is renamed to \<open>F\<close>, and every header
  with that search key that differs from it keeps its original name: in the dictionary
  from keys to headers, filled from left to right, the later header has replaced the
  earlier ones.
\<close>

theorem alias_duplicate_key_last_wins:
  "(F, before @ k # after) \<in> set aliases
   \<and> (\<forall>opt \<in> set before. \<forall>c \<in> set (columns df). norm L c \<noteq> norm L opt)
   \<and> j < length (columns df) \<and> norm L (columns df ! j) = norm L k
   \<and> (\<forall>l. j < l \<and> l < length (columns df) \<longrightarrow> norm L (columns df ! l) \<noteq> norm L k)
   \<longrightarrow> columns (apply_aliases L df) ! j = F
       \<and> (\<forall>i < length (columns df).
             norm L (columns df ! i) = norm L k \<and> columns df ! i \<noteq> columns df ! j
             \<longrightarrow> columns (apply_aliases L df) ! i = columns df ! i)"
  using last_wins [of F before k after df L j] by blast

theorem alias_duplicate_key_last_wins_witness:
  "columns (apply_aliases example_lib example_duplicates) ! 1 = Tipo_de_Puesto
   \<and> columns (apply_aliases example_lib example_duplicates) ! 0 = asc ''tipo puesto''
   \<and> norm example_lib (asc ''tipo puesto'') = norm example_lib (asc ''Tipo Puesto'')"
proof -
  have c: "columns example_duplicates = [asc ''tipo puesto'', asc ''Tipo Puesto'', asc ''Otra'']"
    by (simp add: example_duplicates_def)
  have h1: "(Tipo_de_Puesto, [asc ''tipo de puesto''] @ asc ''tipo puesto'' # [asc ''tipo_puesto''])
              \<in> set aliases"
    by (simp add: aliases_def)
  have h2: "\<forall>opt \<in> set [asc ''tipo de puesto'']. \<forall>c \<in> set (columns example_duplicates).
              norm example_lib c \<noteq> norm example_lib opt"
    by (simp add: c str_eval example_lib_def)
  have h3: "1 < length (columns example_duplicates)" by (simp add: c)
  have h4: "norm example_lib (columns example_duplicates ! 1)
              = norm example_lib (asc ''tipo puesto'')"
    by (simp add: c str_eval example_lib_def)
  have h5: "\<forall>l. 1 < l \<and> l < length (columns example_duplicates) \<longrightarrow>
              norm example_lib (columns example_duplicates ! l)
                \<noteq> norm example_lib (asc ''tipo puesto'')"
  proof (intro allI impI)
    fix l assume "1 < l \<and> l < length (columns example_duplicates)"
    then have "l = 2" by (simp add: c)
    then show "norm example_lib (columns example_duplicates ! l)
                \<noteq> norm example_lib (asc ''tipo puesto'')"
      by (simp add: c str_eval example_lib_def)
  qed
  have h6: "0 < length (columns example_duplicates)
      \<and> norm example_lib (columns example_duplicates ! 0) = norm example_lib (asc ''tipo puesto'')
      \<and> columns example_duplicates ! 0 \<noteq> columns example_duplicates ! 1"
    by (simp add: c str_eval example_lib_def)
  from alias_duplicate_key_last_wins [of Tipo_de_Puesto "[asc ''tipo de puesto'']"
      "asc ''tipo puesto''" "[asc ''tipo_puesto'']" example_duplicates example_lib 1]
    h1 h2 h3 h4 h5
  have a: "columns (apply_aliases example_lib example_duplicates) ! 1 = Tipo_de_Puesto
       \<and> (\<forall>i < length (columns example_duplicates).
             norm example_lib (columns example_duplicates ! i) = norm example_lib (asc ''tipo puesto'')
               \<and> columns example_duplicates ! i \<noteq> columns example_duplicates ! 1
             \<longrightarrow> columns (apply_aliases example_lib example_duplicates) ! i
                   = columns example_duplicates ! i)"
    by blast
  with h6 have "columns (apply_aliases example_lib example_duplicates) ! 0
                  = columns example_duplicates ! 0"
    by blast
  with a h4 show ?thesis by (simp add: c)
qed

section \<open>Schema Validator: properties\<close>

text \<open>
  C3. Validation fails exactly when the set difference of the eight required fields
  against the columns is not empty. On failure it shows the missing fields (a list whose
  set is that difference) and the full list of columns, and the script stops there: the
  pipeline and the filtered view end with that stop, no row having been cleaned or
  filtered. When nothing is missing the table goes on unchanged into the Row Cleaner.
\<close>

theorem schema_gate:
  "(ensure_required df = Inr () \<longleftrightarrow> set required - set (columns df) = {})
   \<and> (set required - set (columns df) \<noteq> {} \<longrightarrow>
        (\<exists>missing. set missing = set required - set (columns df)
           \<and> ensure_required df =
               Inl (Stop [St_error missing,
                          St_write (asc ''Columnas detectadas en tu archivo:''),
                          St_write_list (columns df)])))
   \<and> (df = apply_aliases L (normalize_columns df0) \<longrightarrow>
        (set required - set (columns df) \<noteq> {} \<longrightarrow>
           (\<exists>missing. set missing = set required - set (columns df)
              \<and> pipeline L df0 =
                  Inl (Stop [St_error missing,
                             St_write (asc ''Columnas detectadas en tu archivo:''),
                             St_write_list (columns df)])
              \<and> filtered_view L df0 us cs ds = pipeline L df0))
        \<and> (set required - set (columns df) = {} \<longrightarrow>
              pipeline L df0 =
                (case coerce_plazas_numeric L df of
                   Inl e \<Rightarrow> Inl e
                 | Inr df' \<Rightarrow> drop_total_like_rows L df')))"
proof -
  let ?m = "filter (\<lambda>c. c \<notin> set (columns df)) required"
  have 1: "ensure_required df = Inr () \<longleftrightarrow> set required - set (columns df) = {}"
    by (simp add: ensure_required_cases)
  have 2: "set required - set (columns df) \<noteq> {} \<longrightarrow>
        (\<exists>missing. set missing = set required - set (columns df)
           \<and> ensure_required df =
               Inl (Stop [St_error missing,
                          St_write (asc ''Columnas detectadas en tu archivo:''),
                          St_write_list (columns df)]))"
  proof
    assume "set required - set (columns df) \<noteq> {}"
    then have "ensure_required df = Inl (Stop [St_error ?m,
                          St_write (asc ''Columnas detectadas en tu archivo:''),
                          St_write_list (columns df)])"
      by (simp add: ensure_required_cases)
    with missing_set [of "columns df"] show "\<exists>missing. set missing = set required - set (columns df)
           \<and> ensure_required df =
               Inl (Stop [St_error missing,
                          St_write (asc ''Columnas detectadas en tu archivo:''),
                          St_write_list (columns df)])"
      by blast
  qed
  have 3: "df = apply_aliases L (normalize_columns df0) \<longrightarrow>
        (set required - set (columns df) \<noteq> {} \<longrightarrow>
           (\<exists>missing. set missing = set required - set (columns df)
              \<and> pipeline L df0 =
                  Inl (Stop [St_error missing,
                             St_write (asc ''Columnas detectadas en tu archivo:''),
                             St_write_list (columns df)])
              \<and> filtered_view L df0 us cs ds = pipeline L df0))
        \<and> (set required - set (columns df) = {} \<longrightarrow>
              pipeline L df0 =
                (case coerce_plazas_numeric L df of
                   Inl e \<Rightarrow> Inl e
                 | Inr df' \<Rightarrow> drop_total_like_rows L df'))"
  proof (intro impI conjI)
    assume d: "df = apply_aliases L (normalize_columns df0)"
      and ne: "set required - set (columns df) \<noteq> {}"
    from ne have e: "ensure_required df = Inl (Stop [St_error ?m,
                          St_write (asc ''Columnas detectadas en tu archivo:''),
                          St_write_list (columns df)])"
      by (simp add: ensure_required_cases)
    have p: "pipeline L df0 = Inl (Stop [St_error ?m,
                          St_write (asc ''Columnas detectadas en tu archivo:''),
                          St_write_list (columns df)])"
      using e d by (simp add: pipeline_def Let_def)
    have f: "filtered_view L df0 us cs ds = pipeline L df0"
      by (simp add: filtered_view_def p)
    from p f missing_set [of "columns df"]
    show "\<exists>missing. set missing = set required - set (columns df)
              \<and> pipeline L df0 =
                  Inl (Stop [St_error missing,
                             St_write (asc ''Columnas detectadas en tu archivo:''),
                             St_write_list (columns df)])
              \<and> filtered_view L df0 us cs ds = pipeline L df0"
      by blast
  next
    assume d: "df = apply_aliases L (normalize_columns df0)"
      and em: "set required - set (columns df) = {}"
    from em have e: "ensure_required df = Inr ()"
      by (simp add: ensure_required_cases)
    show "pipeline L df0 =
                (case coerce_plazas_numeric L df of
                   Inl e \<Rightarrow> Inl e
                 | Inr df' \<Rightarrow> drop_total_like_rows L df')"
      using e d by (simp add: pipeline_def Let_def)
  qed
  from 1 2 3 show ?thesis by (intro conjI)
qed

theorem schema_gate_witness:
  "(\<exists>missing. set missing = {Justificacion}
      \<and> pipeline example_lib example_upload_missing =
          Inl (Stop [St_error missing,
                     St_write (asc ''Columnas detectadas en tu archivo:''),
                     St_write_list [Unidad, Coordinacion, Direccion, Tipo_de_Puesto,
                                    Nivel_Salarial, Tipo_de_Plaza, Plazas]])
      \<and> filtered_view example_lib example_upload_missing [] [] [] =
          pipeline example_lib example_upload_missing)
   \<and> ensure_required (apply_aliases example_lib (normalize_columns example_upload)) = Inr ()"
proof -
  have m: "set required
             - set [Unidad, Coordinacion, Direccion, Tipo_de_Puesto, Nivel_Salarial,
                    Tipo_de_Plaza, Plazas]
           = {Justificacion}"
    by (auto simp: required_def field_defs asc_def)
  have f: "set required
             - set (columns (apply_aliases example_lib (normalize_columns example_upload))) = {}"
    unfolding example_upload_columns by (simp add: required_def)
  let ?D = "apply_aliases example_lib (normalize_columns example_upload_missing)"
  have ne: "set required - set (columns ?D) \<noteq> {}"
    unfolding example_upload_missing_columns m by simp
  from schema_gate [of ?D example_lib example_upload_missing "[]" "[]" "[]"] ne
  have "\<exists>missing. set missing = set required - set (columns ?D)
      \<and> pipeline example_lib example_upload_missing =
          Inl (Stop [St_error missing,
                     St_write (asc ''Columnas detectadas en tu archivo:''),
                     St_write_list (columns ?D)])
      \<and> filtered_view example_lib example_upload_missing [] [] [] =
          pipeline example_lib example_upload_missing"
    by blast
  then have a: "\<exists>missing. set missing = {Justificacion}
      \<and> pipeline example_lib example_upload_missing =
          Inl (Stop [St_error missing,
                     St_write (asc ''Columnas detectadas en tu archivo:''),
                     St_write_list [Unidad, Coordinacion, Direccion, Tipo_de_Puesto,
                                    Nivel_Salarial, Tipo_de_Plaza, Plazas]])
      \<and> filtered_view example_lib example_upload_missing [] [] [] =
          pipeline example_lib example_upload_missing"
    unfolding example_upload_missing_columns m .
  from schema_gate [of "apply_aliases example_lib (normalize_columns example_upload)"
                       example_lib example_upload "[]" "[]" "[]"] f
  have b: "ensure_required (apply_aliases example_lib (normalize_columns example_upload)) = Inr ()"
    by blast
  from a b show ?thesis by (rule conjI)
qed

section \<open>Row Cleaner: properties\<close>

text \<open>
  C4. The claim as stated, for every validated table, fails on a validated table that
  holds the label \<open>Tipo de Plaza\<close> twice: the upload with the headers \<open>Tipo de Plaza\<close> and
  \<open>Tipo de Plaza\<close> followed by a space passes validation, and the Row Cleaner then ends
  with an error at \<open>df["Tipo de Plaza"]\<close>, which is not a Series. No row is kept and the
  script goes no further, although the only row of the table is neither blank nor a total.
\<close>

theorem row_cleaner_duplicate_label_counterexample:
  "ensure_required (apply_aliases example_lib (normalize_columns example_upload_twice)) = Inr ()
   \<and> drop_total_like_rows example_lib
        (apply_aliases example_lib (normalize_columns example_upload_twice))
      = Inl (NotASeries Tipo_de_Plaza)
   \<and> pipeline example_lib example_upload_twice = Inl (NotASeries Tipo_de_Plaza)"
proof -
  let ?t = "apply_aliases example_lib (normalize_columns example_upload_twice)"
  have v: "ensure_required ?t = Inr ()"
    by (simp add: ensure_required_def required_def example_upload_twice_columns)
  have g: "get_col (columns ?t) Tipo_de_Plaza = Inl (NotASeries Tipo_de_Plaza)"
    unfolding example_upload_twice_columns
    by (simp add: get_col_def field_defs asc_def)
  have d: "\<And>t. columns t = columns ?t \<Longrightarrow>
      drop_total_like_rows example_lib t = Inl (NotASeries Tipo_de_Plaza)"
    by (simp add: drop_total_like_rows_def g)
  have p: "get_col (columns ?t) Plazas = Inr 8"
    unfolding example_upload_twice_columns
    by (simp add: get_col_def field_defs asc_def)
  have "pipeline example_lib example_upload_twice = Inl (NotASeries Tipo_de_Plaza)"
    by (simp add: pipeline_def Let_def v coerce_plazas_numeric_def p d)
  with v d [of ?t] show ?thesis by simp
qed

text \<open>
  C4, amended. On every table in which each of the four grouping columns \<open>Direccion\<close>,
  \<open>Tipo de Plaza\<close>, \<open>Unidad\<close>, \<open>Coordinacion\<close> occurs exactly once among the labels
  (every validated table with none of the four duplicated is one) the Row Cleaner returns
  the table with exactly the rows the specification keeps: those whose \<open>Tipo de Plaza\<close>
  is not null and whose four grouping columns hold no value that trims and uppercases to
  TOTAL or TOTALES. Every other row is dropped.
\<close>

theorem row_cleaner_keeps_exactly:
  assumes "count_list (columns df) Direccion = 1" and "count_list (columns df) Tipo_de_Plaza = 1"
    and "count_list (columns df) Unidad = 1" and "count_list (columns df) Coordinacion = 1"
  shows "drop_total_like_rows L df =
           Inr (df\<lparr>rows := filter (spec_row_kept L (columns df)) (rows df)\<rparr>)"
  using drop_total_like_rows_unique [OF assms] by (simp add: keep_rows_def)

theorem row_cleaner_keeps_exactly_witness:
  "ensure_required example_table = Inr ()
   \<and> count_list (columns example_table) Direccion = 1
   \<and> count_list (columns example_table) Tipo_de_Plaza = 1
   \<and> count_list (columns example_table) Unidad = 1
   \<and> count_list (columns example_table) Coordinacion = 1
   \<and> drop_total_like_rows example_lib example_table = Inr (example_table\<lparr>rows := [row1, row4]\<rparr>)"
proof -
  have v: "ensure_required example_table = Inr ()"
    using example_table_validated by simp
  note u = example_table_unique
  from row_cleaner_keeps_exactly [OF u, of example_lib]
  have "drop_total_like_rows example_lib example_table = Inr (example_table\<lparr>rows := [row1, row4]\<rparr>)"
    unfolding example_table_kept .
  with v u show ?thesis by simp
qed

section \<open>Filter Engine: properties\<close>

text \<open>
  C7. On every clean table, the table the script has computed from an upload when it
  reaches the filters, the Filter Engine returns exactly the rows that satisfy the
  conjunction of the three membership predicates, an empty selection imposing no
  restriction. The all-empty selection returns the table itself; with three non-empty
  selections the result is the intersection of the per-column matches; a selection none
  of whose values occurs in its column yields the table with no rows, not an error.
\<close>

theorem filter_engine_conjunction:
  assumes "pipeline L df0 = Inr df"
  shows "filter_block df us cs ds =
           Inr (df\<lparr>rows := filter (\<lambda>r. spec_selected (pos (columns df) Unidad) us r
                                     \<and> spec_selected (pos (columns df) Coordinacion) cs r
                                     \<and> spec_selected (pos (columns df) Direccion) ds r) (rows df)\<rparr>)
     \<and> filter_block df [] [] [] = Inr df
     \<and> (us \<noteq> [] \<and> cs \<noteq> [] \<and> ds \<noteq> [] \<longrightarrow>
          (\<exists>d. filter_block df us cs ds = Inr d
             \<and> rows d = filter (\<lambda>r. r ! pos (columns df) Unidad \<in> set us
                                 \<and> r ! pos (columns df) Coordinacion \<in> set cs
                                 \<and> r ! pos (columns df) Direccion \<in> set ds) (rows df)
             \<and> set (rows d) =
                 {r \<in> set (rows df). r ! pos (columns df) Unidad \<in> set us}
                 \<inter> {r \<in> set (rows df). r ! pos (columns df) Coordinacion \<in> set cs}
                 \<inter> {r \<in> set (rows df). r ! pos (columns df) Direccion \<in> set ds}))
     \<and> (us \<noteq> [] \<and> (\<forall>r \<in> set (rows df). r ! pos (columns df) Unidad \<notin> set us) \<longrightarrow>
          filter_block df us cs ds = Inr (df\<lparr>rows := []\<rparr>))
     \<and> (cs \<noteq> [] \<and> (\<forall>r \<in> set (rows df). r ! pos (columns df) Coordinacion \<notin> set cs) \<longrightarrow>
          filter_block df us cs ds = Inr (df\<lparr>rows := []\<rparr>))
     \<and> (ds \<noteq> [] \<and> (\<forall>r \<in> set (rows df). r ! pos (columns df) Direccion \<notin> set ds) \<longrightarrow>
          filter_block df us cs ds = Inr (df\<lparr>rows := []\<rparr>))"
proof -
  from pipeline_filter_columns [OF assms]
  have u: "count_list (columns df) Unidad = 1" "count_list (columns df) Coordinacion = 1"
    "count_list (columns df) Direccion = 1"
    by simp_all
  note fb = filter_block_unique [OF u, of us cs ds]
  have 1: "filter_block df us cs ds =
           Inr (df\<lparr>rows := filter (\<lambda>r. spec_selected (pos (columns df) Unidad) us r
                                     \<and> spec_selected (pos (columns df) Coordinacion) cs r
                                     \<and> spec_selected (pos (columns df) Direccion) ds r) (rows df)\<rparr>)"
    using fb by (simp add: keep_rows_def)
  have 2: "filter_block df [] [] [] = Inr df"
    by (rule filter_block_empty)
  have 3: "us \<noteq> [] \<and> cs \<noteq> [] \<and> ds \<noteq> [] \<longrightarrow>
          (\<exists>d. filter_block df us cs ds = Inr d
             \<and> rows d = filter (\<lambda>r. r ! pos (columns df) Unidad \<in> set us
                                 \<and> r ! pos (columns df) Coordinacion \<in> set cs
                                 \<and> r ! pos (columns df) Direccion \<in> set ds) (rows df)
             \<and> set (rows d) =
                 {r \<in> set (rows df). r ! pos (columns df) Unidad \<in> set us}
                 \<inter> {r \<in> set (rows df). r ! pos (columns df) Coordinacion \<in> set cs}
                 \<inter> {r \<in> set (rows df). r ! pos (columns df) Direccion \<in> set ds})"
    using fb by (auto simp: spec_selected_def)
  have 4: "us \<noteq> [] \<and> (\<forall>r \<in> set (rows df). r ! pos (columns df) Unidad \<notin> set us) \<longrightarrow>
          filter_block df us cs ds = Inr (df\<lparr>rows := []\<rparr>)"
    using fb by (auto simp: spec_selected_def keep_rows_def filter_empty_conv)
  have 5: "cs \<noteq> [] \<and> (\<forall>r \<in> set (rows df). r ! pos (columns df) Coordinacion \<notin> set cs) \<longrightarrow>
          filter_block df us cs ds = Inr (df\<lparr>rows := []\<rparr>)"
    using fb by (auto simp: spec_selected_def keep_rows_def filter_empty_conv)
  have 6: "ds \<noteq> [] \<and> (\<forall>r \<in> set (rows df). r ! pos (columns df) Direccion \<notin> set ds) \<longrightarrow>
          filter_block df us cs ds = Inr (df\<lparr>rows := []\<rparr>)"
    using fb by (auto simp: spec_selected_def keep_rows_def filter_empty_conv)
  from 1 2 3 4 5 6 show ?thesis by blast
qed

theorem filter_engine_conjunction_witness:
  "pipeline example_lib example_upload = Inr example_clean
   \<and> filter_block example_clean [Text (asc ''U1'')] [Text (asc ''C1'')] [Text (asc ''D1'')]
     = Inr (example_clean\<lparr>rows := [row1[7 := Num (Finite 3)]]\<rparr>)
   \<and> filter_block example_clean [] [Text (asc ''C1'')] []
     = Inr (example_clean\<lparr>rows := [row1[7 := Num (Finite 3)], row4[7 := Null]]\<rparr>)
   \<and> filter_block example_clean [Text (asc ''U9'')] [] [] = Inr (example_clean\<lparr>rows := []\<rparr>)
   \<and> filter_block example_clean [] [] [] = Inr example_clean"
proof -
  note t = filter_engine_conjunction [OF example_pipeline]
  have k: "filter (\<lambda>r. spec_selected (pos (columns example_clean) Unidad) [Text (asc ''U1'')] r
                     \<and> spec_selected (pos (columns example_clean) Coordinacion) [Text (asc ''C1'')] r
                     \<and> spec_selected (pos (columns example_clean) Direccion) [Text (asc ''D1'')] r)
             (rows example_clean) = [row1[7 := Num (Finite 3)]]"
    by (simp add: example_clean_rows spec_selected_def example_clean_pos row_defs asc_def)
  have a: "filter_block example_clean [Text (asc ''U1'')] [Text (asc ''C1'')] [Text (asc ''D1'')]
     = Inr (example_clean\<lparr>rows := [row1[7 := Num (Finite 3)]]\<rparr>)"
    using t [of "[Text (asc ''U1'')]" "[Text (asc ''C1'')]" "[Text (asc ''D1'')]"]
    unfolding k by blast
  have k2: "filter (\<lambda>r. spec_selected (pos (columns example_clean) Unidad) [] r
                     \<and> spec_selected (pos (columns example_clean) Coordinacion) [Text (asc ''C1'')] r
                     \<and> spec_selected (pos (columns example_clean) Direccion) [] r)
             (rows example_clean) = [row1[7 := Num (Finite 3)], row4[7 := Null]]"
    by (simp add: example_clean_rows spec_selected_def example_clean_pos row_defs asc_def)
  have a2: "filter_block example_clean [] [Text (asc ''C1'')] []
     = Inr (example_clean\<lparr>rows := [row1[7 := Num (Finite 3)], row4[7 := Null]]\<rparr>)"
    using t [of "[]" "[Text (asc ''C1'')]" "[]"]
    unfolding k2 by blast
  have n: "[Text (asc ''U9'')] \<noteq> []
      \<and> (\<forall>r \<in> set (rows example_clean).
            r ! pos (columns example_clean) Unidad \<notin> set [Text (asc ''U9'')])"
    by (simp add: example_clean_rows example_clean_pos row_defs asc_def)
  have b: "filter_block example_clean [Text (asc ''U9'')] [] [] = Inr (example_clean\<lparr>rows := []\<rparr>)"
    using t [of "[Text (asc ''U9'')]" "[]" "[]"] n by blast
  have c: "filter_block example_clean [] [] [] = Inr example_clean"
    using t [of "[]" "[]" "[]"] by blast
  from example_pipeline a a2 b c show ?thesis by blast
qed

section \<open>Row-dropping operations\<close>

text \<open>
  C10. Every selection of rows by a mask, the Row Cleaner, each filter restriction and
  the whole filter block return a table whose rows are a subsequence of the input's rows
  (same rows, same relative order, none duplicated or changed) under the same column
  labels: for every table, every column and every selection, whenever the operation
  returns a table at all. The Row Cleaner returns one when each of its four grouping
  labels occurs exactly once, a restriction when its selection is empty or its label
  occurs exactly once, the filter block when each of its three labels occurs exactly once.
\<close>

theorem row_dropping_subseq:
  "subseq (rows (keep_rows p df)) (rows df) \<and> columns (keep_rows p df) = columns df
   \<and> (\<forall>d. drop_total_like_rows L df = Inr d \<longrightarrow>
          subseq (rows d) (rows df) \<and> columns d = columns df)
   \<and> (\<forall>d. restrict col sel df = Inr d \<longrightarrow>
          subseq (rows d) (rows df) \<and> columns d = columns df)
   \<and> (\<forall>d. filter_block df us cs ds = Inr d \<longrightarrow>
          subseq (rows d) (rows df) \<and> columns d = columns df)
   \<and> (count_list (columns df) Direccion = 1 \<and> count_list (columns df) Tipo_de_Plaza = 1
        \<and> count_list (columns df) Unidad = 1 \<and> count_list (columns df) Coordinacion = 1
        \<longrightarrow> (\<exists>d. drop_total_like_rows L df = Inr d))
   \<and> (sel = [] \<or> count_list (columns df) col = 1 \<longrightarrow> (\<exists>d. restrict col sel df = Inr d))
   \<and> (count_list (columns df) Unidad = 1 \<and> count_list (columns df) Coordinacion = 1
        \<and> count_list (columns df) Direccion = 1
        \<longrightarrow> (\<exists>d. filter_block df us cs ds = Inr d))"
proof -
  have 1: "subseq (rows (keep_rows p df)) (rows df) \<and> columns (keep_rows p df) = columns df"
    by simp
  have 2: "\<forall>d. drop_total_like_rows L df = Inr d \<longrightarrow>
          subseq (rows d) (rows df) \<and> columns d = columns df"
    using drop_total_like_rows_Inr [of L df] by blast
  have 3: "\<forall>d. restrict col sel df = Inr d \<longrightarrow>
          subseq (rows d) (rows df) \<and> columns d = columns df"
    using restrict_Inr [of col sel df] by blast
  have 4: "\<forall>d. filter_block df us cs ds = Inr d \<longrightarrow>
          subseq (rows d) (rows df) \<and> columns d = columns df"
    using filter_block_Inr [of df us cs ds] by blast
  have 5: "count_list (columns df) Direccion = 1 \<and> count_list (columns df) Tipo_de_Plaza = 1
        \<and> count_list (columns df) Unidad = 1 \<and> count_list (columns df) Coordinacion = 1
        \<longrightarrow> (\<exists>d. drop_total_like_rows L df = Inr d)"
    using drop_total_like_rows_unique [of df L] by blast
  have 6: "sel = [] \<or> count_list (columns df) col = 1 \<longrightarrow> (\<exists>d. restrict col sel df = Inr d)"
    using restrict_unique [of df col sel] by (auto simp: restrict_def)
  have 7: "count_list (columns df) Unidad = 1 \<and> count_list (columns df) Coordinacion = 1
        \<and> count_list (columns df) Direccion = 1
        \<longrightarrow> (\<exists>d. filter_block df us cs ds = Inr d)"
    using filter_block_unique [of df us cs ds] by blast
  from 1 2 3 4 5 6 7 show ?thesis by blast
qed

theorem row_dropping_subseq_witness:
  "(\<exists>d. drop_total_like_rows example_lib example_table = Inr d
        \<and> subseq (rows d) [row1, row2, row3, row4])
   \<and> drop_total_like_rows example_lib example_table = Inr (example_table\<lparr>rows := [row1, row4]\<rparr>)
   \<and> subseq [row1, row4] [row1, row2, row3, row4]
   \<and> restrict Direccion [Text (asc ''D2'')] example_table = Inr (example_table\<lparr>rows := [row3]\<rparr>)
   \<and> subseq [row3] [row1, row2, row3, row4]
   \<and> filter_block example_table [Text (asc ''U1'')] [] [Text (asc ''D1''), Text (asc ''D2'')]
       = Inr (example_table\<lparr>rows := [row1, row3]\<rparr>)
   \<and> subseq [row1, row3] [row1, row2, row3, row4]"
proof -
  note t = row_dropping_subseq [of "\<lambda>r. True" example_table example_lib Direccion
      "[Text (asc ''D2'')]" "[Text (asc ''U1'')]" "[]" "[Text (asc ''D1''), Text (asc ''D2'')]"]
  note a = example_table_cleaned
  have u: "count_list (columns example_table) Unidad = 1"
    "count_list (columns example_table) Coordinacion = 1"
    "count_list (columns example_table) Direccion = 1"
    by (rule example_table_unique)+
  from t example_table_unique
  have e: "\<exists>d. drop_total_like_rows example_lib example_table = Inr d
        \<and> subseq (rows d) (rows example_table)"
    by blast
  have b: "restrict Direccion [Text (asc ''D2'')] example_table
      = Inr (example_table\<lparr>rows := [row3]\<rparr>)"
    unfolding restrict_unique [OF u(3)]
    by (simp add: keep_rows_def example_table_rows spec_selected_def example_table_pos row_defs
        asc_def)
  have c: "filter_block example_table [Text (asc ''U1'')] [] [Text (asc ''D1''), Text (asc ''D2'')]
       = Inr (example_table\<lparr>rows := [row1, row3]\<rparr>)"
    unfolding filter_block_unique [OF u]
    by (simp add: keep_rows_def example_table_rows spec_selected_def example_table_pos row_defs
        asc_def)
  from t a have a': "subseq (rows (example_table\<lparr>rows := [row1, row4]\<rparr>)) (rows example_table)"
    by blast
  from t b have b': "subseq (rows (example_table\<lparr>rows := [row3]\<rparr>)) (rows example_table)"
    by blast
  from t c have c': "subseq (rows (example_table\<lparr>rows := [row1, row3]\<rparr>)) (rows example_table)"
    by blast
  from a' b' c' have s: "subseq [row1, row4] [row1, row2, row3, row4]
      \<and> subseq [row3] [row1, row2, row3, row4] \<and> subseq [row1, row3] [row1, row2, row3, row4]"
    unfolding example_table_rows by simp
  from e have e': "\<exists>d. drop_total_like_rows example_lib example_table = Inr d
        \<and> subseq (rows d) [row1, row2, row3, row4]"
    unfolding example_table_rows .
  from e' a b c s show ?thesis by blast
qed

section \<open>Position-type chart: properties\<close>

text \<open>
  C8. Whatever order pandas' descending sort gives to equal counts, the chart's table
  lists first the members of the hierarchy that occur in the column, in the order of the
  hierarchy, and after them every other value of the column, each once, in descending
  order of its number of occurrences; each value stands with that number. The column is
  \<open>Tipo de Puesto\<close> with its blanks filled, so it holds no blank, and it can be read
  whenever the label occurs exactly once.
\<close>

theorem puesto_hierarchy_then_frequency:
  assumes "sorts_descending sort_values"
  shows "(\<exists>otros. map fst (puesto_order sort_values series)
                   = filter (\<lambda>v. v \<in> set series) (map Text ORDEN_PUESTO) @ otros
            \<and> set otros = set series - {Null} - set (map Text ORDEN_PUESTO)
            \<and> distinct otros
            \<and> sorted_wrt (\<lambda>a b. count_list series b \<le> count_list series a) otros
            \<and> map snd (puesto_order sort_values series)
                = map (count_list series) (map fst (puesto_order sort_values series)))
     \<and> (\<forall>s. puesto_series df = Inr s \<longrightarrow>
            Null \<notin> set s \<and> puesto_count sort_values df = Inr (puesto_order sort_values s))
     \<and> (count_list (columns df) Tipo_de_Puesto = 1 \<longrightarrow>
          puesto_series df =
            Inr (map (\<lambda>r. fillna (Text (asc ''Sin Tipo de Puesto''))
                             (r ! pos (columns df) Tipo_de_Puesto)) (rows df)))"
proof -
  note 1 = puesto_order_spec [OF assms, of series]
  have 2: "\<forall>s. puesto_series df = Inr s \<longrightarrow>
            Null \<notin> set s \<and> puesto_count sort_values df = Inr (puesto_order sort_values s)"
    using puesto_series_no_Null [of df] by (simp add: puesto_count_def)
  have 3: "count_list (columns df) Tipo_de_Puesto = 1 \<longrightarrow>
          puesto_series df =
            Inr (map (\<lambda>r. fillna (Text (asc ''Sin Tipo de Puesto''))
                             (r ! pos (columns df) Tipo_de_Puesto)) (rows df))"
    by (simp add: puesto_series_def get_col_unique)
  from 1 2 3 show ?thesis by (intro conjI)
qed

theorem puesto_hierarchy_then_frequency_witness:
  "sorts_descending stable_descending
   \<and> (\<exists>otros. map fst (puesto_order stable_descending example_puestos)
                 = [Text (asc ''Gerente''), Text (asc ''Enlace'')] @ otros
          \<and> set otros = {Text (asc ''UnknownRole'')})
   \<and> puesto_order stable_descending example_puestos
       = [(Text (asc ''Gerente''), 3), (Text (asc ''Enlace''), 5), (Text (asc ''UnknownRole''), 2)]
   \<and> puesto_count stable_descending example_table
       = Inr [(Text (asc ''Gerente''), 1), (Text (asc ''Enlace''), 3)]"
proof -
  note s = stable_descending_sorts
  note t = puesto_hierarchy_then_frequency [OF s, of example_puestos example_table]
  from t have "\<exists>otros. map fst (puesto_order stable_descending example_puestos)
                 = filter (\<lambda>v. v \<in> set example_puestos) (map Text ORDEN_PUESTO) @ otros
          \<and> set otros = set example_puestos - {Null} - set (map Text ORDEN_PUESTO)"
    by blast
  then have a: "\<exists>otros. map fst (puesto_order stable_descending example_puestos)
                 = [Text (asc ''Gerente''), Text (asc ''Enlace'')] @ otros
          \<and> set otros = {Text (asc ''UnknownRole'')}"
    unfolding example_puestos_hierarchy example_puestos_others .
  from t example_table_puesto(1)
  have "puesto_series example_table =
      Inr (map (\<lambda>r. fillna (Text (asc ''Sin Tipo de Puesto''))
                       (r ! pos (columns example_table) Tipo_de_Puesto)) (rows example_table))"
    by blast
  then have p: "puesto_series example_table =
      Inr [Text (asc ''Gerente''), Text (asc ''Enlace''), Text (asc ''Enlace''), Text (asc ''Enlace'')]"
    unfolding example_table_puesto(2) .
  with t have "puesto_count stable_descending example_table =
      Inr (puesto_order stable_descending
        [Text (asc ''Gerente''), Text (asc ''Enlace''), Text (asc ''Enlace''), Text (asc ''Enlace'')])"
    by blast
  then have c: "puesto_count stable_descending example_table
       = Inr [(Text (asc ''Gerente''), 1), (Text (asc ''Enlace''), 3)]"
    unfolding example_table_puesto_order .
  from s a example_puestos_order c show ?thesis by (intro conjI)
qed

end
